theory Spec2Isabelle
  imports Main "HOL-Library.Word"
begin

unbundle bit_operations_syntax

section \<open>The record layer of mint (record-layer.go)\<close>

text \<open>
  A shallow embedding of \<^verbatim>\<open>src/record-layer.go\<close>. Go values are modelled as follows.
  \<^item> \<^verbatim>\<open>byte\<close>, \<^verbatim>\<open>uint16\<close> and \<^verbatim>\<open>uint64\<close> are words of that width; \<^verbatim>\<open>[]byte\<close> is a list
    of bytes.
  \<^item> Go's \<^verbatim>\<open>int\<close> is 64 bits wide and signed. A Go \<^verbatim>\<open>int\<close> that the file is given (the
    argument \<^verbatim>\<open>padLen\<close>, the result of \<^verbatim>\<open>Overhead()\<close>) is a 64-bit word, read by \<open>sint\<close>.
    The lengths and indices that the file computes are values of \<open>int\<close>, and wherever the
    source adds or subtracts lengths that can leave the 64-bit range the wrap-around is
    written out with \<open>go_int\<close>. A negative index is a branch of the model. \<^verbatim>\<open>make\<close> panics on
    a negative length and on a length above \<open>maxAlloc\<close>; running out of memory below that
    limit is not modelled.
  \<^item> A function that can panic returns an \<open>outcome\<close>: \<open>Return v\<close> or \<open>Panic p\<close>. The functions
    of the read path change the layer before they can panic, so they return the outcome
    together with the layer as the call leaves it, also when the call panics. In the write
    path every panic comes before the first change of the layer, and \<open>Panic\<close> stands alone.
  \<^item> A Go \<^verbatim>\<open>error\<close> is a value of the datatype \<open>error\<close>; \<^verbatim>\<open>nil\<close> is \<open>None\<close>.
  \<^item> \<^verbatim>\<open>*cipherState\<close> pointers are references into an explicit store (\<open>heap\<close>), because
    the current cipher and the entries of \<^verbatim>\<open>readCiphers\<close> may be the same object.
  \<^item> \<^verbatim>\<open>assert(b)\<close> panics when \<open>b\<close> is false; \<^verbatim>\<open>logf\<close> has no effect on the state and is
    left out.
\<close>

type_synonym byte = "8 word"
type_synonym bytes = "byte list"
type_synonym uint16 = "16 word"
type_synonym uint64 = "64 word"
type_synonym int64 = "64 word"

datatype panic =
    IndexOutOfRange
  | NilDereference
  | LenOutOfRange
  | SliceBounds
  | AssertionFailed
  | SequenceWraparound

datatype 'a outcome = Return 'a | Panic panic

datatype error =
    AlertWouldBlock
  | DecryptError string
  | Errorf string
  | ExternalError nat

subsection \<open>Constants and slices\<close>

definition sequenceNumberLen :: int where "sequenceNumberLen = 8"
definition recordHeaderLenTLS :: int where "recordHeaderLenTLS = 5"
definition recordHeaderLenDTLS :: int where "recordHeaderLenDTLS = 13"
definition maxFragmentLen :: int where "maxFragmentLen = 2 ^ 14"
definition labelForKey :: string where "labelForKey = ''key''"
definition labelForIV :: string where "labelForIV = ''iv''"

text \<open>
  The result of an addition or a subtraction of two values of Go's \<^verbatim>\<open>int\<close>: the sum reduced
  to the signed 64-bit range.
\<close>

definition go_int :: "int \<Rightarrow> int" where
  "go_int k = signed_take_bit 63 k"

text \<open>
  \<^verbatim>\<open>make([]byte, n)\<close>: a zeroed slice. The Go runtime panics (\<^verbatim>\<open>makeslice: len out of range\<close>)
  when \<open>n\<close> is negative or above its allocation limit, which is \<open>2^48\<close> bytes on the 64-bit
  platforms.
\<close>

definition maxAlloc :: int where "maxAlloc = 2 ^ 48"

definition make_bytes :: "int \<Rightarrow> bytes outcome" where
  "make_bytes n =
     (if n < 0 \<or> maxAlloc < n then Panic LenOutOfRange else Return (replicate (nat n) 0))"

text \<open>
  \<^verbatim>\<open>make([]byte, len(xs))\<close> for a slice \<open>xs\<close> that exists: its length is within the limit, so
  this allocation does not panic.
\<close>

definition make_like :: "bytes \<Rightarrow> bytes" where
  "make_like xs = replicate (length xs) 0"

text \<open>\<^verbatim>\<open>copy(dst, src)\<close>: overwrites the first \<open>min (len dst) (len src)\<close> bytes of \<open>dst\<close>.\<close>

definition copy :: "bytes \<Rightarrow> bytes \<Rightarrow> bytes" where
  "copy dst src = take (length dst) src @ drop (length src) dst"

text \<open>\<^verbatim>\<open>xs[i]\<close> as a read and \<^verbatim>\<open>xs[i] = v\<close> as a write, with Go's bounds check.\<close>

definition index :: "bytes \<Rightarrow> int \<Rightarrow> byte outcome" where
  "index xs i =
     (if 0 \<le> i \<and> i < int (length xs) then Return (xs ! nat i) else Panic IndexOutOfRange)"

definition store :: "bytes \<Rightarrow> int \<Rightarrow> byte \<Rightarrow> bytes outcome" where
  "store xs i v =
     (if 0 \<le> i \<and> i < int (length xs) then Return (xs[nat i := v]) else Panic IndexOutOfRange)"

text \<open>
  \<^verbatim>\<open>append(dst[:0], out...)\<close> where \<open>dst\<close> is a slice whose capacity is its length: the
  bytes are written into \<open>dst\<close>'s array when they fit, and into a fresh array (leaving
  \<open>dst\<close> as it was) when they do not. This is what \<^verbatim>\<open>Seal\<close> and \<^verbatim>\<open>Open\<close> do with their
  first argument; the source keeps \<open>dst\<close> and drops the slice they return.
\<close>

definition append_into :: "bytes \<Rightarrow> bytes \<Rightarrow> bytes" where
  "append_into dst out = (if length out \<le> length dst then out @ drop (length out) dst else dst)"

subsection \<open>Declarations the file uses from elsewhere\<close>

text \<open>
  Modelled from the spec: the \<^verbatim>\<open>Epoch\<close> type is declared outside \<^verbatim>\<open>src/\<close>. Section 4.1
  of the specification calls it the 16-bit epoch packed into the high bits of the 64-bit
  sequence value, and section 3 makes epoch 0 the cleartext epoch.
\<close>

type_synonym Epoch = "16 word"

definition EpochClear :: Epoch where "EpochClear = 0"

text \<open>
  Modelled from the spec: the \<^verbatim>\<open>RecordType\<close> type is declared outside \<^verbatim>\<open>src/\<close>; the source
  converts it from and to a \<^verbatim>\<open>byte\<close> of the header, so it is a byte here. The values of
  its four constants are parameters (see \<open>environment\<close> below).
\<close>

type_synonym RecordType = byte

text \<open>
  \<^verbatim>\<open>crypto/cipher.AEAD\<close> is an interface of the Go library. \<open>Seal\<close> and \<open>Open\<close> take nonce,
  text and additional data and give the bytes they append to their destination; \<open>Open\<close>
  gives \<open>None\<close> when it returns an error.
\<close>

record AEAD =
  Seal :: "bytes \<Rightarrow> bytes \<Rightarrow> bytes \<Rightarrow> bytes"
  Open :: "bytes \<Rightarrow> bytes \<Rightarrow> bytes \<Rightarrow> bytes option"
  Overhead :: int64


subsection \<open>Cipher state\<close>

record cipherState =
  epoch :: Epoch
  ivLength :: int
  seq :: uint64
  iv :: bytes
  cipher :: "AEAD option"

definition newCipherStateNull :: cipherState where
  "newCipherStateNull = \<lparr>epoch = EpochClear, ivLength = 0, seq = 0, iv = [], cipher = None\<rparr>"

definition newCipherStateAead ::
  "Epoch \<Rightarrow> (bytes \<Rightarrow> error + AEAD) \<Rightarrow> bytes \<Rightarrow> bytes \<Rightarrow> error + cipherState" where
  "newCipherStateAead e factory key ivb =
     (case factory key of
        Inl err \<Rightarrow> Inl err
      | Inr a \<Rightarrow> Inr \<lparr>epoch = e, ivLength = int (length ivb), seq = 0, iv = ivb, cipher = Some a\<rparr>)"

definition combineSeq :: "cipherState \<Rightarrow> bool \<Rightarrow> uint64" where
  "combineSeq c dgram =
     (if dgram then seq c OR push_bit 48 (ucast (epoch c) :: uint64) else seq c)"

text \<open>The loop of \<^verbatim>\<open>computeNonce\<close>: \<open>i\<close> counts up to 8, \<open>s\<close> is shifted right by a byte.\<close>

function computeNonce_loop :: "int \<Rightarrow> int \<Rightarrow> uint64 \<Rightarrow> bytes \<Rightarrow> bytes outcome" where
  "computeNonce_loop i offset s nonce =
     (if i < 8 then
        (case index nonce ((offset - i) - 1) of
           Panic p \<Rightarrow> Panic p
         | Return old \<Rightarrow>
            (case store nonce ((offset - i) - 1) (old XOR ucast (s AND 0xff)) of
               Panic p \<Rightarrow> Panic p
             | Return nonce' \<Rightarrow> computeNonce_loop (i + 1) offset (drop_bit 8 s) nonce'))
      else Return nonce)"
  by pat_completeness auto
termination
  by (relation "measure (\<lambda>(i, offset, s, nonce). nat (8 - i))") auto

declare computeNonce_loop.simps [simp del]

definition computeNonce :: "cipherState \<Rightarrow> uint64 \<Rightarrow> bytes outcome" where
  "computeNonce c sq =
     (let nonce = copy (make_like (iv c)) (iv c)
      in computeNonce_loop 0 (int (length (iv c))) sq nonce)"

definition incrementSequenceNumber :: "cipherState \<Rightarrow> cipherState outcome" where
  "incrementSequenceNumber c =
     (if seq c \<ge> 2 ^ 48 - 1 then Panic SequenceWraparound
      else Return (c\<lparr>seq := seq c + 1\<rparr>))"

definition overhead :: "cipherState \<Rightarrow> int" where
  "overhead c = (case cipher c of None \<Rightarrow> 0 | Some a \<Rightarrow> sint (Overhead a))"

subsection \<open>Records and the record layer\<close>

text \<open>
  The fields \<^verbatim>\<open>epoch\<close> and \<^verbatim>\<open>seq\<close> of \<^verbatim>\<open>TLSPlaintext\<close> are \<open>pt_epoch\<close> and \<open>pt_seq\<close> here:
  \<^verbatim>\<open>cipherState\<close> has fields of the same names.
\<close>

record TLSPlaintext =
  contentType :: RecordType
  pt_epoch :: Epoch
  pt_seq :: uint64
  fragment :: bytes

definition NewTLSPlaintext :: "RecordType \<Rightarrow> Epoch \<Rightarrow> bytes \<Rightarrow> TLSPlaintext" where
  "NewTLSPlaintext ct e frag = \<lparr>contentType = ct, pt_epoch = e, pt_seq = 0, fragment = frag\<rparr>"

type_synonym Direction = byte

definition DirectionWrite :: Direction where "DirectionWrite = 1"
definition DirectionRead :: Direction where "DirectionRead = 2"

text \<open>\<^verbatim>\<open>recordLayerFrameDetails\<close> is a struct with the single field \<^verbatim>\<open>datagram\<close>.\<close>

type_synonym recordLayerFrameDetails = bool

definition headerLen :: "recordLayerFrameDetails \<Rightarrow> int" where
  "headerLen d = (if d then recordHeaderLenDTLS else recordHeaderLenTLS)"

definition defaultReadLen :: "recordLayerFrameDetails \<Rightarrow> int" where
  "defaultReadLen d = headerLen d + maxFragmentLen"

definition frameLen :: "recordLayerFrameDetails \<Rightarrow> bytes \<Rightarrow> int outcome" where
  "frameLen d hdr =
     (case index hdr (headerLen d - 2) of
        Panic p \<Rightarrow> Panic p
      | Return hi \<Rightarrow>
         (case index hdr (headerLen d - 1) of
            Panic p \<Rightarrow> Panic p
          | Return lo \<Rightarrow> Return (push_bit 8 (uint hi) OR uint lo)))"

text \<open>
  What the file takes from the rest of the package and from its callers, as parameters:
  the flag \<^verbatim>\<open>allowWrongVersionNumber\<close>, the constant \<^verbatim>\<open>tls10Version\<close>, the four
  \<^verbatim>\<open>RecordType\<close> constants, \<^verbatim>\<open>dtlsConvertVersion\<close>, the frame reader (\<^verbatim>\<open>frameReader\<close>, with
  state \<open>'f\<close>) and the connection (\<^verbatim>\<open>io.ReadWriter\<close>, with state \<open>'c\<close>). \<open>frame_process\<close>
  gives an error or a header and a body; \<open>conn_Read\<close> gives the bytes read (\<^verbatim>\<open>buf[:n]\<close>) and
  the error.
\<close>

record ('f, 'c) environment =
  allowWrongVersionNumber :: bool
  tls10Version :: uint16
  RecordTypeAlert :: RecordType
  RecordTypeHandshake :: RecordType
  RecordTypeApplicationData :: RecordType
  RecordTypeAck :: RecordType
  dtlsConvertVersion :: "uint16 \<Rightarrow> uint16"
  newFrameReader :: "recordLayerFrameDetails \<Rightarrow> 'f"
  frame_details :: "'f \<Rightarrow> recordLayerFrameDetails"
  frame_needed :: "'f \<Rightarrow> int"
  frame_addChunk :: "'f \<Rightarrow> bytes \<Rightarrow> 'f"
  frame_process :: "'f \<Rightarrow> (error + bytes \<times> bytes) \<times> 'f"
  conn_Read :: "'c \<Rightarrow> int \<Rightarrow> (bytes \<times> error option) \<times> 'c"
  conn_Write :: "'c \<Rightarrow> bytes \<Rightarrow> error option \<times> 'c"

text \<open>
  Modelled from the spec: \<^verbatim>\<open>encodeUint\<close> and \<^verbatim>\<open>decodeUint\<close> are declared outside \<^verbatim>\<open>src/\<close>.
  Section 6.1 of the specification lays the datagram header out as a 1-byte type, a
  2-byte version, an 8-byte sequence and a 2-byte length, and section 4.3 places the
  epoch in the high 16 bits of the sequence value: fixed-width big-endian integers, as
  \<^verbatim>\<open>frameLen\<close> reads them. \<open>encodeUint v n out\<close> overwrites the first \<open>n\<close> bytes of \<open>out\<close>.
\<close>

definition encodeUint :: "uint64 \<Rightarrow> nat \<Rightarrow> bytes \<Rightarrow> bytes" where
  "encodeUint v n out = map (\<lambda>k. ucast (drop_bit (8 * k) v)) (rev [0..<n]) @ drop n out"

definition decodeUint :: "bytes \<Rightarrow> nat \<Rightarrow> uint64" where
  "decodeUint bs n = foldl (\<lambda>acc b. push_bit 8 acc + ucast b) 0 (take n bs)"

text \<open>
  The record layer. \<open>r_cipher\<close> is the field \<^verbatim>\<open>cipher\<close> (a \<^verbatim>\<open>*cipherState\<close>), and the values
  of \<open>readCiphers\<close> are such pointers too: references into \<open>heap\<close>, the store of the
  cipher states; \<open>heap_next\<close> is the next free reference. The mutex is left out.
\<close>

record ('f, 'c) DefaultRecordLayer =
  label :: string
  direction :: Direction
  version :: uint16
  conn :: 'c
  frame :: 'f
  nextData :: bytes
  cachedRecord :: "TLSPlaintext option"
  cachedError :: "error option"
  r_cipher :: nat
  readCiphers :: "Epoch \<rightharpoonup> nat"
  datagram :: bool
  heap :: "nat \<Rightarrow> cipherState"
  heap_next :: nat

definition NewRecordLayerTLS ::
  "('f, 'c) environment \<Rightarrow> 'c \<Rightarrow> Direction \<Rightarrow> ('f, 'c) DefaultRecordLayer" where
  "NewRecordLayerTLS env cn dir =
     \<lparr>label = [], direction = dir, version = tls10Version env, conn = cn,
      frame = newFrameReader env False, nextData = [], cachedRecord = None,
      cachedError = None, r_cipher = 0, readCiphers = Map.empty, datagram = False,
      heap = (\<lambda>_. newCipherStateNull), heap_next = 1\<rparr>"

definition NewRecordLayerDTLS ::
  "('f, 'c) environment \<Rightarrow> 'c \<Rightarrow> Direction \<Rightarrow> ('f, 'c) DefaultRecordLayer" where
  "NewRecordLayerDTLS env cn dir =
     \<lparr>label = [], direction = dir, version = 0, conn = cn,
      frame = newFrameReader env True, nextData = [], cachedRecord = None,
      cachedError = None, r_cipher = 0, readCiphers = [0 \<mapsto> 0], datagram = True,
      heap = (\<lambda>_. newCipherStateNull), heap_next = 1\<rparr>"

definition SetVersion ::
  "('f, 'c) DefaultRecordLayer \<Rightarrow> uint16 \<Rightarrow> ('f, 'c) DefaultRecordLayer" where
  "SetVersion r v = r\<lparr>version := v\<rparr>"

definition ResetClear ::
  "('f, 'c) DefaultRecordLayer \<Rightarrow> uint64 \<Rightarrow> ('f, 'c) DefaultRecordLayer" where
  "ResetClear r sq =
     r\<lparr>r_cipher := heap_next r,
       heap := (heap r)(heap_next r := newCipherStateNull\<lparr>seq := sq\<rparr>),
       heap_next := heap_next r + 1\<rparr>"

definition Epoch :: "('f, 'c) DefaultRecordLayer \<Rightarrow> Epoch" where
  "Epoch r = epoch (heap r (r_cipher r))"

definition SetLabel ::
  "('f, 'c) DefaultRecordLayer \<Rightarrow> string \<Rightarrow> ('f, 'c) DefaultRecordLayer" where
  "SetLabel r s = r\<lparr>label := s\<rparr>"

text \<open>
  \<^verbatim>\<open>Rekey\<close>: \<open>keys\<close> is the map \<^verbatim>\<open>keys.Keys\<close>; a label that is absent gives the empty slice.
\<close>

definition Rekey ::
  "('f, 'c) DefaultRecordLayer \<Rightarrow> Epoch \<Rightarrow> (bytes \<Rightarrow> error + AEAD) \<Rightarrow> (string \<rightharpoonup> bytes)
     \<Rightarrow> error option \<times> ('f, 'c) DefaultRecordLayer" where
  "Rekey r e factory keys =
     (case newCipherStateAead e factory
             (case keys labelForKey of None \<Rightarrow> [] | Some k \<Rightarrow> k)
             (case keys labelForIV of None \<Rightarrow> [] | Some k \<Rightarrow> k) of
        Inl err \<Rightarrow> (Some err, r)
      | Inr c \<Rightarrow>
         (let r1 = r\<lparr>r_cipher := heap_next r,
                     heap := (heap r)(heap_next r := c),
                     heap_next := heap_next r + 1\<rparr>
          in (None,
              if datagram r \<and> direction r = DirectionRead
              then r1\<lparr>readCiphers := (readCiphers r)(e \<mapsto> heap_next r)\<rparr>
              else r1)))"

definition DiscardReadKey ::
  "('f, 'c) DefaultRecordLayer \<Rightarrow> Epoch \<Rightarrow> ('f, 'c) DefaultRecordLayer outcome" where
  "DiscardReadKey r e =
     (if \<not> datagram r then Return r
      else if readCiphers r e = None then Panic AssertionFailed
      else Return (r\<lparr>readCiphers := (readCiphers r)(e := None)\<rparr>))"

subsection \<open>Record codec\<close>

text \<open>
  The padding loop of \<^verbatim>\<open>encrypt\<close>: \<^verbatim>\<open>for i := 1; i <= padLen; i++\<close>. The buffer is shorter
  than \<open>2^63\<close> bytes and the index \<^verbatim>\<open>originalLen+i\<close> grows by one from a value inside the
  buffer, so the store panics before the index or the counter can leave the 64-bit range:
  no wrap-around is written here.
\<close>

function encrypt_pad :: "int \<Rightarrow> int \<Rightarrow> int \<Rightarrow> bytes \<Rightarrow> bytes outcome" where
  "encrypt_pad i padLen originalLen ciphertext =
     (if i \<le> padLen then
        (case store ciphertext (originalLen + i) 0 of
           Panic p \<Rightarrow> Panic p
         | Return ciphertext' \<Rightarrow> encrypt_pad (i + 1) padLen originalLen ciphertext')
      else Return ciphertext)"
  by pat_completeness auto
termination
  by (relation "measure (\<lambda>(i, padLen, originalLen, ciphertext). nat (padLen + 1 - i))") auto

declare encrypt_pad.simps [simp del]

text \<open>
  \<^verbatim>\<open>encrypt\<close> reads the cipher state it is given and changes nothing, so the model takes
  the cipher state by value. The nonce is computed before \<^verbatim>\<open>Seal\<close> is called on the
  (possibly nil) interface value.
\<close>

definition encrypt ::
  "('f, 'c) DefaultRecordLayer \<Rightarrow> cipherState \<Rightarrow> uint64 \<Rightarrow> bytes \<Rightarrow> TLSPlaintext \<Rightarrow> int64
     \<Rightarrow> bytes outcome" where
  "encrypt r c sq header pt padLen =
     (if direction r \<noteq> DirectionWrite then Panic AssertionFailed
      else
        let originalLen = int (length (fragment pt));
            plaintextLen = go_int (go_int (originalLen + 1) + sint padLen);
            ciphertextLen = go_int (plaintextLen + overhead c)
        in
          case make_bytes ciphertextLen of
            Panic p \<Rightarrow> Panic p
          | Return buf \<Rightarrow>
             (case store (copy buf (fragment pt)) originalLen (contentType pt) of
                Panic p \<Rightarrow> Panic p
              | Return buf1 \<Rightarrow>
                 (case encrypt_pad 1 (sint padLen) originalLen buf1 of
                    Panic p \<Rightarrow> Panic p
                  | Return ciphertext \<Rightarrow>
                     if plaintextLen < 0 \<or> int (length ciphertext) < plaintextLen
                     then Panic SliceBounds
                     else
                       let payload = take (nat plaintextLen) ciphertext in
                       (case computeNonce c sq of
                          Panic p \<Rightarrow> Panic p
                        | Return nonce \<Rightarrow>
                           (case cipher c of
                              None \<Rightarrow> Panic NilDereference
                            | Some a \<Rightarrow>
                               Return (append_into ciphertext (Seal a nonce payload header)))))))"

text \<open>
  The padding scan of \<^verbatim>\<open>decrypt\<close>:
  \<^verbatim>\<open>for ; padLen < decryptLen+1 && out.fragment[decryptLen-padLen-1] == 0; padLen++\<close>.
\<close>

function decrypt_padding :: "int \<Rightarrow> int \<Rightarrow> bytes \<Rightarrow> int outcome" where
  "decrypt_padding padLen decryptLen frag =
     (if padLen < decryptLen + 1 then
        (case index frag (decryptLen - padLen - 1) of
           Panic p \<Rightarrow> Panic p
         | Return b \<Rightarrow>
            if b = 0 then decrypt_padding (padLen + 1) decryptLen frag else Return padLen)
      else Return padLen)"
  by pat_completeness auto
termination
  by (relation "measure (\<lambda>(padLen, decryptLen, frag). nat (decryptLen + 1 - padLen))") auto

declare decrypt_padding.simps [simp del]

text \<open>
  \<^verbatim>\<open>decrypt\<close> uses \<^verbatim>\<open>r.cipher\<close>, the current cipher state of the layer. The messages of
  the errors are kept without their formatted numbers.
\<close>

definition decrypt ::
  "('f, 'c) DefaultRecordLayer \<Rightarrow> uint64 \<Rightarrow> bytes \<Rightarrow> TLSPlaintext
     \<Rightarrow> (error + TLSPlaintext \<times> int) outcome" where
  "decrypt r sq header pt =
     (if direction r \<noteq> DirectionRead then Panic AssertionFailed
      else
        let c = heap r (r_cipher r) in
        if int (length (fragment pt)) < overhead c
        then Return (Inl (DecryptError ''tls.record.decrypt: Record too short''))
        else
          let decryptLen = go_int (int (length (fragment pt)) - overhead c) in
          case make_bytes decryptLen of
            Panic p \<Rightarrow> Panic p
          | Return buf \<Rightarrow>
             (case computeNonce c sq of
                Panic p \<Rightarrow> Panic p
              | Return nonce \<Rightarrow>
                 (case cipher c of
                    None \<Rightarrow> Panic NilDereference
                  | Some a \<Rightarrow>
                     (case Open a nonce (fragment pt) header of
                        None \<Rightarrow>
                          Return (Inl (DecryptError ''tls.record.decrypt: AEAD decrypt failed''))
                      | Some plain \<Rightarrow>
                         (let out_fragment = append_into buf plain in
                          case decrypt_padding 0 decryptLen out_fragment of
                            Panic p \<Rightarrow> Panic p
                          | Return padLen \<Rightarrow>
                             (let newLen = decryptLen - padLen - 1 in
                              case index out_fragment newLen of
                                Panic p \<Rightarrow> Panic p
                              | Return ct \<Rightarrow>
                                 Return (Inr (\<lparr>contentType = ct, pt_epoch = 0, pt_seq = sq,
                                               fragment = take (nat newLen) out_fragment\<rparr>,
                                              padLen))))))))"

subsection \<open>Read path\<close>

text \<open>
  The read loop of \<^verbatim>\<open>nextRecord\<close> (\<^verbatim>\<open>for err != nil\<close>): it ends with a header and a body,
  or with the error that \<^verbatim>\<open>nextRecord\<close> returns. It need not end (a frame reader that
  needs nothing and keeps answering would-block), so it is a partial function: \<open>None\<close>
  is the loop that runs forever.
\<close>

partial_function (option) nextRecord_loop ::
  "('f, 'c) environment \<Rightarrow> ('f, 'c) DefaultRecordLayer
     \<Rightarrow> ((error + bytes \<times> bytes) \<times> ('f, 'c) DefaultRecordLayer) option" where
  "nextRecord_loop env r =
     (if frame_needed env (frame r) > 0 then
        (case conn_Read env (conn r) (headerLen (frame_details env (frame r)) + maxFragmentLen) of
           ((buf, err), cn) \<Rightarrow>
             (case err of
                Some e \<Rightarrow> Some (Inl e, r\<lparr>conn := cn\<rparr>)
              | None \<Rightarrow>
                 if length buf = 0 then Some (Inl AlertWouldBlock, r\<lparr>conn := cn\<rparr>)
                 else
                   (case frame_process env (frame_addChunk env (frame r) buf) of
                      (Inr hb, f) \<Rightarrow> Some (Inr hb, r\<lparr>conn := cn, frame := f\<rparr>)
                    | (Inl e, f) \<Rightarrow>
                       if e \<noteq> AlertWouldBlock then Some (Inl e, r\<lparr>conn := cn, frame := f\<rparr>)
                       else nextRecord_loop env (r\<lparr>conn := cn, frame := f\<rparr>))))
      else
        (case frame_process env (frame r) of
           (Inr hb, f) \<Rightarrow> Some (Inr hb, r\<lparr>frame := f\<rparr>)
         | (Inl e, f) \<Rightarrow>
            if e \<noteq> AlertWouldBlock then Some (Inl e, r\<lparr>frame := f\<rparr>)
            else nextRecord_loop env (r\<lparr>frame := f\<rparr>)))"

text \<open>
  The three checks of the header (\<^verbatim>\<open>// Validate content type\<close>, \<^verbatim>\<open>// Validate version\<close>,
  \<^verbatim>\<open>// Validate size < max\<close>): the content type and the size, or the error returned.
\<close>

definition nextRecord_validate ::
  "('f, 'c) environment \<Rightarrow> bytes \<Rightarrow> (error + RecordType \<times> int) outcome" where
  "nextRecord_validate env header =
     (case index header 0 of
        Panic p \<Rightarrow> Panic p
      | Return h0 \<Rightarrow>
         if \<not> (h0 = RecordTypeAlert env \<or> h0 = RecordTypeHandshake env \<or>
                h0 = RecordTypeApplicationData env \<or> h0 = RecordTypeAck env)
         then Return (Inl (Errorf ''tls.record: Unknown content type''))
         else
           (case (if allowWrongVersionNumber env then Return False
                  else (case index header 1 of
                          Panic p \<Rightarrow> Panic p
                        | Return h1 \<Rightarrow>
                           if h1 \<noteq> 0x03 then Return True
                           else (case index header 2 of
                                   Panic p \<Rightarrow> Panic p
                                 | Return h2 \<Rightarrow> Return (h2 \<noteq> 0x01)))) of
              Panic p \<Rightarrow> Panic p
            | Return True \<Rightarrow> Return (Inl (Errorf ''tls.record: Invalid version''))
            | Return False \<Rightarrow>
               (case index header (int (length header) - 2) of
                  Panic p \<Rightarrow> Panic p
                | Return hi \<Rightarrow>
                   (case index header (int (length header) - 1) of
                      Panic p \<Rightarrow> Panic p
                    | Return lo \<Rightarrow>
                       (let sz = push_bit 8 (uint hi) + uint lo in
                        if sz > maxFragmentLen + 256
                        then Return (Inl (Errorf ''tls.record: Ciphertext size too big''))
                        else Return (Inr (h0, sz)))))))"

text \<open>
  The choice of the sequence number and of the cipher state (\<^verbatim>\<open>seq := cipher.seq\<close> and the
  block \<^verbatim>\<open>if r.datagram\<close>): the sequence number and the reference of the chosen cipher
  state, or the error returned. The slice \<^verbatim>\<open>header[3:11]\<close> is taken within the length of
  the header.
\<close>

definition nextRecord_select ::
  "bool \<Rightarrow> ('f, 'c) DefaultRecordLayer \<Rightarrow> bytes \<Rightarrow> (error + uint64 \<times> nat) outcome" where
  "nextRecord_select allowOldEpoch r header =
     (if datagram r then
        (if length header < 11 then Panic SliceBounds
         else
           let sq = decodeUint (take 8 (drop 3 header)) 8;
               e = (ucast (drop_bit 48 sq) :: Epoch)
           in
             case readCiphers r e of
               None \<Rightarrow> Return (Inl AlertWouldBlock)
             | Some c \<Rightarrow>
                if e \<noteq> epoch (heap r (r_cipher r)) then
                  (if \<not> allowOldEpoch then Return (Inl AlertWouldBlock)
                   else Return (Inr (sq, c)))
                else Return (Inr (sq, r_cipher r)))
      else Return (Inr (seq (heap r (r_cipher r)), r_cipher r)))"

text \<open>
  \<^verbatim>\<open>nextRecord\<close> returns the pair \<^verbatim>\<open>(*TLSPlaintext, error)\<close>, or panics; the model gives this
  outcome together with the layer as the call leaves it. The source assigns
  \<^verbatim>\<open>r.cachedRecord = pt\<close> before it calls \<^verbatim>\<open>cipher.incrementSequenceNumber()\<close>, so when that
  call panics the layer already holds the record in its cache.
\<close>

definition nextRecord ::
  "('f, 'c) environment \<Rightarrow> bool \<Rightarrow> ('f, 'c) DefaultRecordLayer
     \<Rightarrow> ((TLSPlaintext option \<times> error option) outcome \<times> ('f, 'c) DefaultRecordLayer) option" where
  "nextRecord env allowOldEpoch r =
     (case cachedRecord r of
        Some cached \<Rightarrow> Some (Return (Some cached, cachedError r), r)
      | None \<Rightarrow>
         (case nextRecord_loop env r of
            None \<Rightarrow> None
          | Some (Inl e, r1) \<Rightarrow> Some (Return (None, Some e), r1)
          | Some (Inr (header, body), r1) \<Rightarrow>
             Some
              (case nextRecord_validate env header of
                 Panic p \<Rightarrow> (Panic p, r1)
               | Return (Inl e) \<Rightarrow> (Return (None, Some e), r1)
               | Return (Inr (ct, sz)) \<Rightarrow>
                  (case make_bytes sz of
                     Panic p \<Rightarrow> (Panic p, r1)
                   | Return buf \<Rightarrow>
                      (let pt = \<lparr>contentType = ct, pt_epoch = 0, pt_seq = 0,
                                 fragment = copy buf body\<rparr>
                       in
                         case nextRecord_select allowOldEpoch r1 header of
                           Panic p \<Rightarrow> (Panic p, r1)
                         | Return (Inl e) \<Rightarrow> (Return (None, Some e), r1)
                         | Return (Inr (sq, cref)) \<Rightarrow>
                            (case (case cipher (heap r1 cref) of
                                     None \<Rightarrow> Return (Inr pt)
                                   | Some a \<Rightarrow>
                                      (case decrypt r1 sq header pt of
                                         Panic p \<Rightarrow> Panic p
                                       | Return (Inl e) \<Rightarrow> Return (Inl e)
                                       | Return (Inr (pt', padLen)) \<Rightarrow> Return (Inr pt'))) of
                               Panic p \<Rightarrow> (Panic p, r1)
                             | Return (Inl e) \<Rightarrow> (Return (None, Some e), r1)
                             | Return (Inr pt1) \<Rightarrow>
                                (let pt2 = pt1\<lparr>pt_epoch := epoch (heap r1 cref)\<rparr> in
                                 if int (length (fragment pt2)) > maxFragmentLen
                                 then (Return (None,
                                         Some (Errorf ''tls.record: Plaintext size too big'')), r1)
                                 else
                                   (case incrementSequenceNumber (heap r1 cref) of
                                      Panic p \<Rightarrow> (Panic p, r1\<lparr>cachedRecord := Some pt2\<rparr>)
                                    | Return c' \<Rightarrow>
                                       (Return (Some pt2, None),
                                        r1\<lparr>cachedRecord := Some pt2,
                                           heap := (heap r1)(cref := c')\<rparr>)))))))))"

text \<open>
  \<^verbatim>\<open>PeekRecordType\<close> retries on would-block when \<open>block\<close> is set, so it is partial as well.
  It returns the pair \<^verbatim>\<open>(RecordType, error)\<close>; a panic of \<^verbatim>\<open>nextRecord\<close> passes through it.
\<close>

partial_function (option) PeekRecordType ::
  "('f, 'c) environment \<Rightarrow> bool \<Rightarrow> ('f, 'c) DefaultRecordLayer
     \<Rightarrow> ((RecordType \<times> error option) outcome \<times> ('f, 'c) DefaultRecordLayer) option" where
  "PeekRecordType env block r =
     (case nextRecord env False r of
        None \<Rightarrow> None
      | Some (Panic p, r1) \<Rightarrow> Some (Panic p, r1)
      | Some (Return (pt, err), r1) \<Rightarrow>
         (case err of
            None \<Rightarrow>
              (case pt of
                 None \<Rightarrow> Some (Panic NilDereference, r1)
               | Some rec \<Rightarrow> Some (Return (contentType rec, None), r1))
          | Some e \<Rightarrow>
             if \<not> block \<or> e \<noteq> AlertWouldBlock then Some (Return (0, Some e), r1)
             else PeekRecordType env block r1))"

text \<open>
  \<^verbatim>\<open>ReadRecord\<close> and \<^verbatim>\<open>ReadRecordAnyEpoch\<close> empty the cache after \<^verbatim>\<open>nextRecord\<close> has returned;
  when \<^verbatim>\<open>nextRecord\<close> panics they do not get that far.
\<close>

definition ReadRecord ::
  "('f, 'c) environment \<Rightarrow> ('f, 'c) DefaultRecordLayer
     \<Rightarrow> ((TLSPlaintext option \<times> error option) outcome \<times> ('f, 'c) DefaultRecordLayer) option" where
  "ReadRecord env r =
     (case nextRecord env False r of
        None \<Rightarrow> None
      | Some (Panic p, r1) \<Rightarrow> Some (Panic p, r1)
      | Some (Return res, r1) \<Rightarrow>
         Some (Return res, r1\<lparr>cachedRecord := None, cachedError := None\<rparr>))"

definition ReadRecordAnyEpoch ::
  "('f, 'c) environment \<Rightarrow> ('f, 'c) DefaultRecordLayer
     \<Rightarrow> ((TLSPlaintext option \<times> error option) outcome \<times> ('f, 'c) DefaultRecordLayer) option" where
  "ReadRecordAnyEpoch env r =
     (case nextRecord env True r of
        None \<Rightarrow> None
      | Some (Panic p, r1) \<Rightarrow> Some (Panic p, r1)
      | Some (Return res, r1) \<Rightarrow>
         Some (Return res, r1\<lparr>cachedRecord := None, cachedError := None\<rparr>))"

subsection \<open>Write path\<close>

text \<open>
  The header that \<^verbatim>\<open>writeRecordWithPadding\<close> builds (\<^verbatim>\<open>var header []byte\<close> and the
  \<^verbatim>\<open>if !r.datagram\<close> after it) from the wire content type, the sequence value and the
  length.
\<close>

definition writeRecord_header ::
  "('f, 'c) environment \<Rightarrow> ('f, 'c) DefaultRecordLayer \<Rightarrow> RecordType \<Rightarrow> uint64 \<Rightarrow> int
     \<Rightarrow> bytes outcome" where
  "writeRecord_header env r ct sq len =
     (if \<not> datagram r then
        Return [ct, ucast (drop_bit 8 (version r)), ucast (version r AND 0xff),
                word_of_int (drop_bit 8 len), word_of_int len]
      else
        (case make_bytes 13 of
           Panic p \<Rightarrow> Panic p
         | Return h \<Rightarrow>
            (let v = dtlsConvertVersion env (version r);
                 h1 = copy h [ct, ucast (drop_bit 8 v), ucast (v AND 0xff)];
                 h2 = take 3 h1 @ encodeUint sq 8 (drop 3 h1);
                 h3 = take 11 h2 @ encodeUint (word_of_int len) 2 (drop 11 h2)
             in Return h3)))"

text \<open>
  \<^verbatim>\<open>writeRecordWithPadding\<close> takes the cipher state as a pointer and advances its sequence
  number: \<open>cref\<close> is the reference. It returns the error and the layer as it leaves it.
  The source computes \<^verbatim>\<open>length += 1 + padLen + cipher.cipher.Overhead()\<close> in Go's \<^verbatim>\<open>int\<close>. A
  panic (of \<^verbatim>\<open>encrypt\<close>, or of \<^verbatim>\<open>incrementSequenceNumber\<close>, which comes before \<^verbatim>\<open>conn.Write\<close>)
  finds the layer unchanged.
\<close>

definition writeRecordWithPadding ::
  "('f, 'c) environment \<Rightarrow> ('f, 'c) DefaultRecordLayer \<Rightarrow> TLSPlaintext \<Rightarrow> nat \<Rightarrow> int64
     \<Rightarrow> (error option \<times> ('f, 'c) DefaultRecordLayer) outcome" where
  "writeRecordWithPadding env r pt cref padLen =
     (let c = heap r cref;
          sq = combineSeq c (datagram r);
          len = (case cipher c of
                   Some a \<Rightarrow>
                     go_int (int (length (fragment pt)) +
                             go_int (go_int (1 + sint padLen) + sint (Overhead a)))
                 | None \<Rightarrow> int (length (fragment pt)));
          ct = (case cipher c of
                  Some a \<Rightarrow> RecordTypeApplicationData env
                | None \<Rightarrow> contentType pt)
      in
        case writeRecord_header env r ct sq len of
          Panic p \<Rightarrow> Panic p
        | Return header \<Rightarrow>
           (case (case cipher c of
                    Some a \<Rightarrow>
                      (case encrypt r c sq header pt padLen of
                         Panic p \<Rightarrow> Panic p
                       | Return ciphertext \<Rightarrow> Return (Inr ciphertext))
                  | None \<Rightarrow>
                     if sint padLen > 0
                     then Return (Inl (Errorf
                            ''tls.record: Padding can only be done on encrypted records''))
                     else Return (Inr (fragment pt))) of
              Panic p \<Rightarrow> Panic p
            | Return (Inl e) \<Rightarrow> Return (Some e, r)
            | Return (Inr ciphertext) \<Rightarrow>
               if int (length ciphertext) > maxFragmentLen
               then Return (Some (Errorf ''tls.record: Record size too big''), r)
               else
                 (let record = header @ ciphertext in
                  case incrementSequenceNumber c of
                    Panic p \<Rightarrow> Panic p
                  | Return c' \<Rightarrow>
                     (case conn_Write env (conn r) record of
                        (err, cn) \<Rightarrow>
                          Return (err, r\<lparr>conn := cn, heap := (heap r)(cref := c')\<rparr>)))))"

definition WriteRecord ::
  "('f, 'c) environment \<Rightarrow> ('f, 'c) DefaultRecordLayer \<Rightarrow> TLSPlaintext
     \<Rightarrow> (error option \<times> ('f, 'c) DefaultRecordLayer) outcome" where
  "WriteRecord env r pt = writeRecordWithPadding env r pt (r_cipher r) 0"

definition WriteRecordWithPadding ::
  "('f, 'c) environment \<Rightarrow> ('f, 'c) DefaultRecordLayer \<Rightarrow> TLSPlaintext \<Rightarrow> int64
     \<Rightarrow> (error option \<times> ('f, 'c) DefaultRecordLayer) outcome" where
  "WriteRecordWithPadding env r pt padLen = writeRecordWithPadding env r pt (r_cipher r) padLen"

subsection \<open>The nonce as the specification words it\<close>

text \<open>
  Section 4.1 of the specification: the nonce is the IV with the low 8 bytes of the
  sequence value, big-endian, XORed into its last 8 bytes. \<open>seq_byte s k\<close> is byte \<open>k\<close>
  of \<open>s\<close>, counted from the least significant one.
\<close>

definition seq_byte :: "uint64 \<Rightarrow> nat \<Rightarrow> byte" where
  "seq_byte s k = ucast (drop_bit (8 * k) s)"

definition seq_bytes_be :: "uint64 \<Rightarrow> bytes" where
  "seq_bytes_be s = map (seq_byte s) [7, 6, 5, 4, 3, 2, 1, 0]"

definition nonce_spec :: "bytes \<Rightarrow> uint64 \<Rightarrow> bytes" where
  "nonce_spec ivb s =
     take (length ivb - 8) ivb @ map2 (XOR) (drop (length ivb - 8) ivb) (seq_bytes_be s)"

subsection \<open>Instances for concrete inputs\<close>

text \<open>
  An implementation of the AEAD interface for concrete inputs: it appends the one-byte
  key as the tag and checks it on opening, so that a text sealed under one key does not
  open under another. It meets \<open>aead_ok\<close>.
\<close>

definition tagAEAD :: "byte \<Rightarrow> AEAD" where
  "tagAEAD k =
     \<lparr>Seal = (\<lambda>n p ad. p @ [k]),
      Open = (\<lambda>n ct ad. if ct \<noteq> [] \<and> last ct = k then Some (butlast ct) else None),
      Overhead = 1\<rparr>"

text \<open>
  An environment for concrete inputs. The frame reader holds the records that are
  already assembled, as pairs of header and body, and hands them out in order; it asks
  for more bytes when it holds none. The connection has nothing to read and keeps the
  list of the records written to it.
\<close>

definition testEnv ::
  "bool \<Rightarrow> bool \<Rightarrow> ((bytes \<times> bytes) list, bytes list) environment" where
  "testEnv allow dgram =
     \<lparr>allowWrongVersionNumber = allow, tls10Version = 0x0301,
      RecordTypeAlert = 21, RecordTypeHandshake = 22,
      RecordTypeApplicationData = 23, RecordTypeAck = 25,
      dtlsConvertVersion = (\<lambda>v. v),
      newFrameReader = (\<lambda>d. []),
      frame_details = (\<lambda>f. dgram),
      frame_needed = (\<lambda>f. if f = [] then 1 else 0),
      frame_addChunk = (\<lambda>f b. f),
      frame_process =
        (\<lambda>f. case f of [] \<Rightarrow> (Inl AlertWouldBlock, []) | hb # rest \<Rightarrow> (Inr hb, rest)),
      conn_Read = (\<lambda>c n. (([], None), c)),
      conn_Write = (\<lambda>c rec. (None, c @ [rec]))\<rparr>"

definition iv12 :: bytes where
  "iv12 = [0, 1, 2, 3, 4, 5, 6, 7, 8, 9, 10, 11]"

definition aeadState :: "Epoch \<Rightarrow> byte \<Rightarrow> uint64 \<Rightarrow> cipherState" where
  "aeadState e k sq =
     \<lparr>epoch = e, ivLength = 12, seq = sq, iv = iv12, cipher = Some (tagAEAD k)\<rparr>"

text \<open>
  Key material for \<^verbatim>\<open>Rekey\<close>: the factory builds \<open>tagAEAD\<close> from a one-byte key, and the
  key set holds that key and a 12-byte IV.
\<close>

definition tagFactory :: "bytes \<Rightarrow> error + AEAD" where
  "tagFactory key = (case key of [k] \<Rightarrow> Inr (tagAEAD k) | _ \<Rightarrow> Inl (ExternalError 0))"

definition keySet :: "byte \<Rightarrow> (string \<rightharpoonup> bytes)" where
  "keySet k = [labelForKey \<mapsto> [k], labelForIV \<mapsto> iv12]"

text \<open>
  Stream-mode layers after one \<^verbatim>\<open>Rekey\<close> to epoch 1 under key 7: a writer, and a reader
  whose frame reader holds the given records.
\<close>

definition tlsWriter :: "((bytes \<times> bytes) list, bytes list) DefaultRecordLayer" where
  "tlsWriter =
     snd (Rekey (NewRecordLayerTLS (testEnv False False) [] DirectionWrite) 1 tagFactory (keySet 7))"

definition tlsReader ::
  "(bytes \<times> bytes) list \<Rightarrow> ((bytes \<times> bytes) list, bytes list) DefaultRecordLayer" where
  "tlsReader frames =
     (snd (Rekey (NewRecordLayerTLS (testEnv False False) [] DirectionRead) 1 tagFactory (keySet 7)))
       \<lparr>frame := frames\<rparr>"

text \<open>A stream-mode writer as \<^verbatim>\<open>NewRecordLayerTLS\<close> leaves it: cleartext, epoch 0.\<close>

definition clearWriter :: "((bytes \<times> bytes) list, bytes list) DefaultRecordLayer" where
  "clearWriter = NewRecordLayerTLS (testEnv False False) [] DirectionWrite"

text \<open>
  A stream-mode reader in cleartext whose version has been set to \<open>0x0303\<close>, and a
  datagram-mode reader after \<^verbatim>\<open>Rekey\<close> to epoch 1 under key 7 and then to epoch 2 under
  key 9; in both the frame reader holds the given records.
\<close>

definition clearReader0303 ::
  "(bytes \<times> bytes) list \<Rightarrow> ((bytes \<times> bytes) list, bytes list) DefaultRecordLayer" where
  "clearReader0303 frames =
     (SetVersion (NewRecordLayerTLS (testEnv False False) [] DirectionRead) 0x0303)
       \<lparr>frame := frames\<rparr>"

definition dtlsReader ::
  "(bytes \<times> bytes) list \<Rightarrow> ((bytes \<times> bytes) list, bytes list) DefaultRecordLayer" where
  "dtlsReader frames =
     (snd (Rekey (snd (Rekey (NewRecordLayerDTLS (testEnv False True) [] DirectionRead)
                         1 tagFactory (keySet 7)))
              2 tagFactory (keySet 9)))
       \<lparr>frame := frames\<rparr>"

text \<open>
  The datagram-mode reader after the first \<^verbatim>\<open>Rekey\<close> only (epoch 1 is current), and the
  record that a writer in epoch 1 produces for the fragment \<open>[104, 105]\<close> of type 22: its
  13-byte header carries the sequence value \<open>2^48\<close> (epoch 1, counter 0).
\<close>

definition dtlsReaderEpoch1 ::
  "(bytes \<times> bytes) list \<Rightarrow> ((bytes \<times> bytes) list, bytes list) DefaultRecordLayer" where
  "dtlsReaderEpoch1 frames =
     (snd (Rekey (NewRecordLayerDTLS (testEnv False True) [] DirectionRead)
              1 tagFactory (keySet 7)))
       \<lparr>frame := frames\<rparr>"

definition epoch1Header :: bytes where
  "epoch1Header = [23, 3, 1, 0, 1, 0, 0, 0, 0, 0, 0, 0, 4]"

definition epoch1Body :: bytes where
  "epoch1Body = [104, 105, 22, 7]"

text \<open>
  The record that the writer \<open>tlsWriter\<close> puts on the wire for the fragment \<open>[104, 105]\<close> of
  type 22 with two bytes of padding: a 5-byte header and the sealed payload.
\<close>

definition paddedHeader :: bytes where
  "paddedHeader = [23, 3, 1, 0, 6]"

definition paddedBody :: bytes where
  "paddedBody = [104, 105, 22, 0, 0, 7]"

text \<open>
  A stream-mode reader in cleartext after \<^verbatim>\<open>ResetClear(1<<48 - 1)\<close>: the sequence number of
  its cipher state is the one that \<^verbatim>\<open>incrementSequenceNumber\<close> refuses to advance. Its frame
  reader holds the given records. The record below is a cleartext record of type 23 with
  the fragment \<open>[1, 2]\<close>.
\<close>

definition exhaustedReader ::
  "(bytes \<times> bytes) list \<Rightarrow> ((bytes \<times> bytes) list, bytes list) DefaultRecordLayer" where
  "exhaustedReader frames =
     (ResetClear (NewRecordLayerTLS (testEnv False False) [] DirectionRead) (2 ^ 48 - 1))
       \<lparr>frame := frames\<rparr>"

definition clearHeader :: bytes where
  "clearHeader = [23, 3, 1, 0, 2]"

definition clearBody :: bytes where
  "clearBody = [1, 2]"

section \<open>Properties\<close>

subsection \<open>Helper lemmas on words and lists\<close>

lemma ucast_and_ff: "(ucast ((s::uint64) AND 0xff) :: byte) = ucast s"
proof -
  have "(ucast (s AND mask 8) :: byte) = ucast s"
    by (rule bit_word_eqI) (simp add: bit_simps)
  then show ?thesis by (simp add: mask_eq_exp_minus_1)
qed

lemma seq_bytes_inj:
  assumes "\<forall>k<8. seq_byte s k = seq_byte s' k"
  shows "s = s'"
proof (rule bit_word_eqI)
  fix n assume n: "n < LENGTH(64)"
  then have k: "n div 8 < 8" by simp
  from assms k have "seq_byte s (n div 8) = seq_byte s' (n div 8)" by blast
  then have "bit (seq_byte s (n div 8)) (n mod 8) = bit (seq_byte s' (n div 8)) (n mod 8)"
    by simp
  then show "bit s n = bit s' n"
    by (simp add: seq_byte_def bit_simps)
qed

lemma byte_xor_left_cancel: "x XOR a = x XOR b \<longleftrightarrow> a = b" for x a b :: byte
proof
  assume "x XOR a = x XOR b"
  then have "x XOR (x XOR a) = x XOR (x XOR b)" by simp
  then show "a = b" by (simp add: xor.assoc [symmetric])
qed simp

lemma length8:
  assumes "length (ys :: bytes) = 8"
  shows "\<exists>x7 x6 x5 x4 x3 x2 x1 x0. ys = [x7, x6, x5, x4, x3, x2, x1, x0]"
  using assms by (auto simp: numeral_eq_Suc length_Suc_conv)

lemma iv_split:
  assumes "8 \<le> length (xs :: bytes)"
  shows "\<exists>pre x7 x6 x5 x4 x3 x2 x1 x0. xs = pre @ [x7, x6, x5, x4, x3, x2, x1, x0]"
proof -
  have "length (drop (length xs - 8) xs) = 8" using assms by simp
  then obtain x7 x6 x5 x4 x3 x2 x1 x0
    where "drop (length xs - 8) xs = [x7, x6, x5, x4, x3, x2, x1, x0]"
    using length8 by blast
  then have "xs = take (length xs - 8) xs @ [x7, x6, x5, x4, x3, x2, x1, x0]"
    by (metis append_take_drop_id)
  then show ?thesis by blast
qed

lemma seq_succ_unat:
  fixes s :: uint64
  assumes "s < 2 ^ 48 - 1"
  shows "unat (s + 1) = unat s + 1"
proof -
  from assms have "unat s < unat (2 ^ 48 - 1 :: uint64)" by (simp only: word_less_nat_alt)
  then have "unat s < 2 ^ 48 - 1" by simp
  then have "unat s + unat (1::uint64) < 2 ^ LENGTH(64)" by simp
  then have "unat (s + 1) = unat s + unat (1::uint64)" by (simp only: unat_add_lem [THEN iffD1])
  then show ?thesis by simp
qed

text \<open>Go's \<^verbatim>\<open>int\<close>: sums inside the 64-bit range are exact, and a sum above it wraps.\<close>

lemma go_int_id: "- (2 ^ 63) \<le> k \<Longrightarrow> k < 2 ^ 63 \<Longrightarrow> go_int k = k"
  by (simp add: go_int_def signed_take_bit_int_eq_self)

lemma go_int_lower: "- (2 ^ 63) \<le> go_int k"
  using signed_take_bit_int_greater_eq_minus_exp [of 63 k] by (simp add: go_int_def)

lemma go_int_upper: "go_int k < 2 ^ 63"
  using signed_take_bit_int_less_exp [of 63 k] by (simp add: go_int_def)

lemma go_int_high: "2 ^ 63 \<le> k \<Longrightarrow> go_int k \<le> k - 2 ^ 64"
  using signed_take_bit_int_less_eq [of 63 k] by (simp add: go_int_def)

lemma go_int_add_left: "go_int (go_int a + b) = go_int (a + b)"
  unfolding go_int_def
  by (metis signed_take_bit_add signed_take_bit_signed_take_bit min.idem)

lemma go_int_add_right: "go_int (a + go_int b) = go_int (a + b)"
  using go_int_add_left [of b a] by (simp add: add.commute)

lemma maxAlloc_less: "maxAlloc < 2 ^ 63"
  by (simp add: maxAlloc_def)


subsection \<open>The nonce\<close>

lemma computeNonce_loop_unroll:
  "computeNonce_loop 0 (int (length pre) + 8) s (pre @ [x7, x6, x5, x4, x3, x2, x1, x0]) =
     Return (pre @ [x7 XOR seq_byte s 7, x6 XOR seq_byte s 6, x5 XOR seq_byte s 5,
                    x4 XOR seq_byte s 4, x3 XOR seq_byte s 3, x2 XOR seq_byte s 2,
                    x1 XOR seq_byte s 1, x0 XOR seq_byte s 0])"
  by (simp add: computeNonce_loop.simps index_def store_def nth_append list_update_append
        seq_byte_def nat_add_distrib ucast_and_ff)

lemma copy_make: "copy (make_like xs) xs = xs"
  by (simp add: copy_def make_like_def)

lemma computeNonce_closed:
  assumes "8 \<le> length (iv c)"
  shows "computeNonce c s = Return (nonce_spec (iv c) s)"
proof -
  from iv_split [OF assms] obtain pre x7 x6 x5 x4 x3 x2 x1 x0
    where e: "iv c = pre @ [x7, x6, x5, x4, x3, x2, x1, x0]" by blast
  have "computeNonce c s = computeNonce_loop 0 (int (length (iv c))) s (iv c)"
    by (simp add: computeNonce_def copy_make)
  also have "\<dots> =
          computeNonce_loop 0 (int (length pre) + 8) s (pre @ [x7, x6, x5, x4, x3, x2, x1, x0])"
    by (simp add: e add.commute)
  also have "\<dots> = Return (nonce_spec (iv c) s)"
    by (simp add: computeNonce_loop_unroll e nonce_spec_def seq_bytes_be_def)
  finally show ?thesis .
qed

lemma nonce_spec_inj:
  assumes len: "8 \<le> length ivb" and eq: "nonce_spec ivb s = nonce_spec ivb s'"
  shows "s = s'"
proof -
  from iv_split [OF len] obtain pre x7 x6 x5 x4 x3 x2 x1 x0
    where e: "ivb = pre @ [x7, x6, x5, x4, x3, x2, x1, x0]" by blast
  from eq have b: "seq_byte s 7 = seq_byte s' 7" "seq_byte s 6 = seq_byte s' 6"
    "seq_byte s 5 = seq_byte s' 5" "seq_byte s 4 = seq_byte s' 4"
    "seq_byte s 3 = seq_byte s' 3" "seq_byte s 2 = seq_byte s' 2"
    "seq_byte s 1 = seq_byte s' 1" "seq_byte s 0 = seq_byte s' 0"
    by (simp_all add: e nonce_spec_def seq_bytes_be_def byte_xor_left_cancel)
  have "\<forall>k<8. seq_byte s k = seq_byte s' k"
  proof (intro allI impI)
    fix k :: nat assume "k < 8"
    then have "k = 0 \<or> k = 1 \<or> k = 2 \<or> k = 3 \<or> k = 4 \<or> k = 5 \<or> k = 6 \<or> k = 7" by arith
    with b show "seq_byte s k = seq_byte s' k" by auto
  qed
  then show ?thesis by (rule seq_bytes_inj)
qed

lemma computeNonce_loop_short:
  assumes "int (length nonce) = n" and "n < 8" and "0 \<le> i" and "i \<le> n"
  shows "computeNonce_loop i n s nonce = Panic IndexOutOfRange"
  using assms
proof (induction "nat (n - i)" arbitrary: i s nonce)
  case 0
  then have "i = n" by simp
  with 0 show ?case
    by (subst computeNonce_loop.simps) (simp add: index_def)
next
  case (Suc m)
  then have lt: "i < n" by linarith
  let ?k = "n - i - 1"
  have ix: "index nonce ?k = Return (nonce ! nat ?k)"
    using lt Suc.prems by (simp add: index_def)
  have st: "store nonce ?k v = Return (nonce[nat ?k := v])" for v
    using lt Suc.prems by (simp add: store_def)
  have "computeNonce_loop (i + 1) n (drop_bit 8 s) (nonce[nat ?k := v]) = Panic IndexOutOfRange" for v
    using Suc.prems lt Suc.hyps(2) by (intro Suc.hyps(1)) auto
  then show ?case using lt Suc.prems
    by (subst computeNonce_loop.simps) (simp add: ix st)
qed

lemma computeNonce_short_iv:
  assumes "length (iv c) < 8"
  shows "computeNonce c s = Panic IndexOutOfRange"
proof -
  have "computeNonce c s = computeNonce_loop 0 (int (length (iv c))) s (iv c)"
    by (simp add: computeNonce_def copy_make)
  also have "\<dots> = Panic IndexOutOfRange"
    using assms by (intro computeNonce_loop_short) simp_all
  finally show ?thesis .
qed

text \<open>
  C6. \<^verbatim>\<open>computeNonce\<close> on an IV of at least 8 bytes gives the IV with the 8 big-endian
  bytes of the sequence value XORed into its last 8 bytes; it depends on the cipher state
  through its IV alone, so equal IV and sequence value give equal results; and whenever
  it yields nonces for two different sequence values under one IV, the nonces differ.
  (An IV shorter than 8 bytes yields no nonce: the loop indexes below zero and the call
  panics, see \<open>computeNonce_short_iv\<close>.)
\<close>

theorem computeNonce_spec:
  "(8 \<le> length (iv c) \<longrightarrow> computeNonce c s = Return (nonce_spec (iv c) s)) \<and>
   (iv c = iv c' \<longrightarrow> computeNonce c s = computeNonce c' s) \<and>
   (s \<noteq> s' \<and> computeNonce c s = Return n \<and> computeNonce c s' = Return n' \<longrightarrow> n \<noteq> n')"
proof (intro conjI impI)
  assume "8 \<le> length (iv c)"
  then show "computeNonce c s = Return (nonce_spec (iv c) s)" by (rule computeNonce_closed)
next
  assume "iv c = iv c'"
  then show "computeNonce c s = computeNonce c' s"
    by (simp add: computeNonce_def)
next
  assume a: "s \<noteq> s' \<and> computeNonce c s = Return n \<and> computeNonce c s' = Return n'"
  have len: "8 \<le> length (iv c)"
  proof (rule ccontr)
    assume "\<not> 8 \<le> length (iv c)"
    then have "computeNonce c s = Panic IndexOutOfRange"
      by (intro computeNonce_short_iv) simp
    with a show False by simp
  qed
  show "n \<noteq> n'"
  proof
    assume "n = n'"
    with a have "nonce_spec (iv c) s = nonce_spec (iv c) s'"
      by (simp add: computeNonce_closed [OF len])
    with len have "s = s'" by (rule nonce_spec_inj)
    with a show False by simp
  qed
qed

theorem computeNonce_spec_witness:
  "8 \<le> length (iv (aeadState 1 7 0)) \<and>
   computeNonce (aeadState 1 7 0) 1 = Return [0, 1, 2, 3, 4, 5, 6, 7, 8, 9, 10, 10] \<and>
   iv (aeadState 1 7 0) = iv (aeadState 2 9 5) \<and>
   computeNonce (aeadState 1 7 0) 1 = computeNonce (aeadState 2 9 5) 1 \<and>
   (1 :: uint64) \<noteq> 2 \<and>
   computeNonce (aeadState 1 7 0) 2 = Return [0, 1, 2, 3, 4, 5, 6, 7, 8, 9, 10, 9] \<and>
   [0, 1, 2, 3, 4, 5, 6, 7, 8, 9, 10, 10] \<noteq> [0, 1, 2, 3, 4, 5, 6, 7, 8, 9, 10, 9 :: byte]"
proof -
  have len: "8 \<le> length (iv (aeadState 1 7 0))" by (simp add: aeadState_def iv12_def)
  have same: "iv (aeadState 1 7 0) = iv (aeadState 2 9 5)" by (simp add: aeadState_def)
  have ne: "(1 :: uint64) \<noteq> 2" by simp
  note t1 = computeNonce_spec [of "aeadState 1 7 0" 1 "aeadState 2 9 5" 2
      "[0, 1, 2, 3, 4, 5, 6, 7, 8, 9, 10, 10]" "[0, 1, 2, 3, 4, 5, 6, 7, 8, 9, 10, 9]"]
  note t2 = computeNonce_spec [of "aeadState 1 7 0" 2]
  have v1: "nonce_spec (iv (aeadState 1 7 0)) 1 = [0, 1, 2, 3, 4, 5, 6, 7, 8, 9, 10, 10]"
    by (simp add: aeadState_def iv12_def nonce_spec_def seq_bytes_be_def seq_byte_def)
  have v2: "nonce_spec (iv (aeadState 1 7 0)) 2 = [0, 1, 2, 3, 4, 5, 6, 7, 8, 9, 10, 9]"
    by (simp add: aeadState_def iv12_def nonce_spec_def seq_bytes_be_def seq_byte_def)
  from t1 len v1
  have a: "computeNonce (aeadState 1 7 0) 1 = Return [0, 1, 2, 3, 4, 5, 6, 7, 8, 9, 10, 10]"
    by simp
  from t2 len v2
  have a2: "computeNonce (aeadState 1 7 0) 2 = Return [0, 1, 2, 3, 4, 5, 6, 7, 8, 9, 10, 9]"
    by simp
  from t1 same have b: "computeNonce (aeadState 1 7 0) 1 = computeNonce (aeadState 2 9 5) 1"
    by blast
  from t1 ne a a2
  have c: "[0, 1, 2, 3, 4, 5, 6, 7, 8, 9, 10, 10] \<noteq> [0, 1, 2, 3, 4, 5, 6, 7, 8, 9, 10, 9 :: byte]"
    by blast
  from len same ne a a2 b c show ?thesis by blast
qed

subsection \<open>The sequence number\<close>

text \<open>
  C4. Below \<open>2^48 - 1\<close> \<^verbatim>\<open>incrementSequenceNumber\<close> sets the counter to exactly the next
  value (no wrap-around: the unsigned value grows by one); at \<open>2^48 - 1\<close> it panics; and
  whenever it returns, the new counter is greater than the old one, so no value repeats.
\<close>

theorem incrementSequenceNumber_spec:
  "(seq c < 2 ^ 48 - 1 \<longrightarrow>
      incrementSequenceNumber c = Return (c\<lparr>seq := seq c + 1\<rparr>) \<and>
      unat (seq c + 1) = unat (seq c) + 1) \<and>
   (seq c = 2 ^ 48 - 1 \<longrightarrow> incrementSequenceNumber c = Panic SequenceWraparound) \<and>
   (\<forall>c'. incrementSequenceNumber c = Return c' \<longrightarrow> seq c < seq c')"
proof (intro conjI impI allI)
  assume "seq c < 2 ^ 48 - 1"
  then show "incrementSequenceNumber c = Return (c\<lparr>seq := seq c + 1\<rparr>)"
    by (simp add: incrementSequenceNumber_def not_le [symmetric])
next
  assume "seq c < 2 ^ 48 - 1"
  then show "unat (seq c + 1) = unat (seq c) + 1" by (rule seq_succ_unat)
next
  assume "seq c = 2 ^ 48 - 1"
  then show "incrementSequenceNumber c = Panic SequenceWraparound"
    by (simp add: incrementSequenceNumber_def)
next
  fix c' assume r: "incrementSequenceNumber c = Return c'"
  then have lt: "seq c < 2 ^ 48 - 1"
    by (simp add: incrementSequenceNumber_def not_le split: if_splits)
  from r lt have "seq c' = seq c + 1"
    by (auto simp: incrementSequenceNumber_def split: if_splits)
  with seq_succ_unat [OF lt] show "seq c < seq c'" by (simp add: word_less_nat_alt)
qed

theorem incrementSequenceNumber_spec_witness:
  "seq (aeadState 1 7 5) < 2 ^ 48 - 1 \<and>
   incrementSequenceNumber (aeadState 1 7 5) = Return (aeadState 1 7 6) \<and>
   seq (aeadState 1 7 (2 ^ 48 - 1)) = 2 ^ 48 - 1 \<and>
   incrementSequenceNumber (aeadState 1 7 (2 ^ 48 - 1)) = Panic SequenceWraparound \<and>
   seq (aeadState 1 7 5) < seq (aeadState 1 7 6)"
  using incrementSequenceNumber_spec [of "aeadState 1 7 5"]
    incrementSequenceNumber_spec [of "aeadState 1 7 (2 ^ 48 - 1)"]
  by (simp add: aeadState_def)

subsection \<open>Evaluation at concrete inputs\<close>

lemma replicate_numeral: "replicate (numeral k) x = x # replicate (pred_numeral k) x"
  by (simp add: numeral_eq_Suc)

lemma list_update_Cons_numeral: "(x # xs)[numeral k := v] = x # xs[pred_numeral k := v]"
  by (simp add: numeral_eq_Suc)

lemma tlsWriter_eval:
  "tlsWriter =
     \<lparr>label = [], direction = DirectionWrite, version = 0x0301, conn = [], frame = [],
      nextData = [], cachedRecord = None, cachedError = None, r_cipher = 1,
      readCiphers = Map.empty, datagram = False,
      heap = (\<lambda>_. newCipherStateNull)(1 := aeadState 1 7 0), heap_next = 2\<rparr>"
  by (simp add: tlsWriter_def Rekey_def NewRecordLayerTLS_def testEnv_def newCipherStateAead_def
        keySet_def labelForKey_def labelForIV_def tagFactory_def aeadState_def iv12_def Let_def)

lemma tlsReader_eval:
  "tlsReader fs =
     \<lparr>label = [], direction = DirectionRead, version = 0x0301, conn = [], frame = fs,
      nextData = [], cachedRecord = None, cachedError = None, r_cipher = 1,
      readCiphers = Map.empty, datagram = False,
      heap = (\<lambda>_. newCipherStateNull)(1 := aeadState 1 7 0), heap_next = 2\<rparr>"
  by (simp add: tlsReader_def Rekey_def NewRecordLayerTLS_def testEnv_def newCipherStateAead_def
        keySet_def labelForKey_def labelForIV_def tagFactory_def aeadState_def iv12_def Let_def)

lemmas codec_eval =
  encrypt_def decrypt_def Let_def DirectionRead_def DirectionWrite_def make_bytes_def
  make_like_def maxAlloc_def go_int_id
  encrypt_pad.simps decrypt_padding.simps overhead_def aeadState_def tagAEAD_def
  append_into_def iv12_def computeNonce_def computeNonce_loop.simps index_def store_def
  copy_def replicate_numeral list_update_Cons_numeral


subsection \<open>The codec\<close>




text \<open>The scan over a buffer of zero bytes only reaches index \<open>-1\<close> and panics there.\<close>

lemma decrypt_padding_all_zero:
  assumes "0 \<le> p" and "p \<le> int n"
  shows "decrypt_padding p (int n) (replicate n 0) = Panic IndexOutOfRange"
  using assms
proof (induction "nat (int n - p)" arbitrary: p)
  case 0
  then have p: "p = int n" by simp
  show ?case by (subst decrypt_padding.simps) (simp add: p index_def)
next
  case (Suc m)
  then have lt: "p < int n" by linarith
  have "index (replicate n 0) (int n - p - 1) = Return 0"
    using lt Suc.prems by (simp add: index_def)
  moreover have "decrypt_padding (p + 1) (int n) (replicate n 0) = Panic IndexOutOfRange"
    using Suc by (intro Suc.hyps(1)) auto
  ultimately show ?case using lt
    by (subst decrypt_padding.simps) simp
qed




lemma store_length: "store xs i v = Return ys \<Longrightarrow> length ys = length xs"
  by (auto simp: store_def split: if_splits)

lemma encrypt_pad_length: "encrypt_pad i padLen ol buf = Return buf' \<Longrightarrow> length buf' = length buf"
proof (induction i padLen ol buf rule: encrypt_pad.induct)
  case (1 i padLen originalLen ciphertext)
  show ?case
  proof (cases "i \<le> padLen")
    case False
    with 1(2) show ?thesis by (subst (asm) encrypt_pad.simps) simp
  next
    case True
    with 1(2) obtain c1 where s: "store ciphertext (originalLen + i) 0 = Return c1"
      and r: "encrypt_pad (i + 1) padLen originalLen c1 = Return buf'"
      by (subst (asm) encrypt_pad.simps) (auto split: outcome.splits)
    from 1(1)[OF True s r] store_length[OF s] show ?thesis by simp
  qed
qed

lemma append_into_length: "length (append_into dst out) = length dst"
  by (simp add: append_into_def)

lemma copy_length: "length (copy dst src) = length dst"
  by (simp add: copy_def)

lemma make_bytes_length:
  "make_bytes n = Return b \<Longrightarrow> int (length b) = n \<and> 0 \<le> n \<and> n \<le> maxAlloc"
  by (auto simp: make_bytes_def split: if_splits)

lemma store_in_range: "store xs i v = Return ys \<Longrightarrow> 0 \<le> i \<and> i < int (length xs)"
  by (auto simp: store_def split: if_splits)

text \<open>
  A ciphertext that \<^verbatim>\<open>encrypt\<close> returns has the length \<open>len + 1 + padLen + Overhead\<close>, and
  that sum has not wrapped: the allocation succeeded, so the wrapped total lies in
  \<open>0..maxAlloc\<close>; the store of the content type succeeded, so the fragment is shorter than
  the total; the slice \<^verbatim>\<open>ciphertext[:plaintextLen]\<close> succeeded, so the wrapped plaintext
  length lies between 0 and the total.
\<close>

lemma encrypt_length:
  assumes e: "encrypt r c sq header pt padLen = Return ct" and ci: "cipher c = Some a"
  shows "int (length ct) = int (length (fragment pt)) + 1 + sint padLen + sint (Overhead a)"
    and "int (length (fragment pt)) + 1 + sint padLen + sint (Overhead a) \<le> maxAlloc"
proof -
  let ?L = "int (length (fragment pt))"
  let ?p = "sint padLen"
  let ?o = "sint (Overhead a)"
  let ?pl = "go_int (go_int (?L + 1) + ?p)"
  let ?cl = "go_int (?pl + ?o)"
  have ov: "overhead c = ?o" by (simp add: overhead_def ci)
  from e obtain buf buf1 buf2 where
    mk: "make_bytes ?cl = Return buf" and
    st: "store (copy buf (fragment pt)) ?L (contentType pt) = Return buf1" and
    ep: "encrypt_pad 1 ?p ?L buf1 = Return buf2" and
    sb: "\<not> (?pl < 0 \<or> int (length buf2) < ?pl)" and
    ct: "length ct = length buf2"
    unfolding encrypt_def Let_def ov
    by (auto split: if_splits outcome.splits option.splits simp: append_into_length)
  from make_bytes_length[OF mk] have lb: "int (length buf) = ?cl" and cl0: "0 \<le> ?cl"
    and clm: "?cl \<le> maxAlloc" by simp_all
  from store_in_range[OF st] have Lcl: "?L < ?cl" by (simp add: copy_length lb)
  from store_length[OF st] encrypt_pad_length[OF ep] have l2: "int (length buf2) = ?cl"
    by (simp add: copy_length lb)
  from sb l2 have pl0: "0 \<le> ?pl" and plc: "?pl \<le> ?cl" by simp_all
  note lim = maxAlloc_less
  have p64: "(2::int) ^ 64 = 2 * 2 ^ 63" by simp
  have pb: "- (2 ^ 63) \<le> ?p" "?p < 2 ^ 63" using sint_ge[of padLen] sint_lt[of padLen] by simp_all
  have ob: "- (2 ^ 63) \<le> ?o" "?o < 2 ^ 63"
    using sint_ge[of "Overhead a"] sint_lt[of "Overhead a"] by simp_all
  have g1: "go_int (?L + 1) = ?L + 1" using Lcl clm lim by (intro go_int_id) linarith+
  have pl: "?pl = ?L + 1 + ?p"
  proof (cases "?L + 1 + ?p < 2 ^ 63")
    case True
    have "- (2 ^ 63) \<le> ?L + 1 + ?p" using pb by linarith
    with True show ?thesis unfolding g1 by (intro go_int_id)
  next
    case False
    then have "go_int (?L + 1 + ?p) \<le> ?L + 1 + ?p - 2 ^ 64" by (intro go_int_high) simp
    moreover have "?L + 1 + ?p < 2 ^ 64" using Lcl clm lim pb p64 by linarith
    ultimately have "go_int (?L + 1 + ?p) < 0" by linarith
    with pl0 show ?thesis unfolding g1 by simp
  qed
  have cl: "?cl = ?L + 1 + ?p + ?o"
  proof (cases "?pl + ?o < 2 ^ 63")
    case True
    have "- (2 ^ 63) \<le> ?pl + ?o" using pl0 ob by linarith
    with True have "?cl = ?pl + ?o" by (intro go_int_id)
    then show ?thesis by (simp add: pl)
  next
    case False
    then have "?cl \<le> ?pl + ?o - 2 ^ 64" by (intro go_int_high) simp
    moreover have "?pl + ?o < 2 ^ 64" using plc clm lim ob p64 by linarith
    ultimately have "?cl < 0" by linarith
    with cl0 show ?thesis by simp
  qed
  from ct l2 cl show "int (length ct) = ?L + 1 + ?p + ?o" by simp
  from clm cl show "?L + 1 + ?p + ?o \<le> maxAlloc" by simp
qed




text \<open>
  The scan of \<^verbatim>\<open>decrypt\<close> on a payload of zero bytes: whenever the AEAD opens the record
  to \<open>n\<close> zero bytes (\<open>n\<close> may be 0, and at most \<open>maxAlloc\<close>), \<^verbatim>\<open>decrypt\<close> panics with an index
  out of range.
\<close>

lemma decrypt_all_zero_panics:
  assumes ci: "cipher (heap rd (r_cipher rd)) = Some a"
    and ivl: "8 \<le> length (iv (heap rd (r_cipher rd)))"
    and dr: "direction rd = DirectionRead"
    and len: "int (length (fragment rec)) = int n + sint (Overhead a)"
    and op: "Open a (nonce_spec (iv (heap rd (r_cipher rd))) sq) (fragment rec) header
               = Some (replicate n 0)"
    and bound: "int n \<le> maxAlloc"
  shows "decrypt rd sq header rec = Panic IndexOutOfRange"
proof -
  let ?c = "heap rd (r_cipher rd)"
  have ov: "overhead ?c = sint (Overhead a)" by (simp add: overhead_def ci)
  have short: "\<not> int (length (fragment rec)) < overhead ?c" using len by (simp add: ov)
  have "go_int (int (length (fragment rec)) - overhead ?c)
          = int (length (fragment rec)) - overhead ?c"
    using len bound maxAlloc_less unfolding ov by (intro go_int_id) linarith+
  then have dl: "go_int (int (length (fragment rec)) - overhead ?c) = int n"
    using len by (simp add: ov)
  have mk: "make_bytes (int n) = Return (replicate n 0)" using bound by (simp add: make_bytes_def)
  have ai: "append_into (replicate n 0) (replicate n 0) = replicate n (0::byte)"
    by (simp add: append_into_def)
  have dp: "decrypt_padding 0 (int n) (replicate n 0) = Panic IndexOutOfRange"
    by (intro decrypt_padding_all_zero) simp_all
  show ?thesis
    unfolding decrypt_def Let_def
    by (simp only: dr short dl mk computeNonce_closed [OF ivl] ci op ai dp
          outcome.case option.case if_False simp_thms)
qed

text \<open>
  C1. The claim asks for a format or decrypt error on a record whose payload is all
  zero bytes. The code does not return one: in the stream-mode reader keyed for epoch 1,
  the ciphertext \<open>[0, 0, 0, 7]\<close> opens to the payload \<open>[0, 0, 0]\<close>, the scan steps over the
  three zero bytes, indexes position \<open>-1\<close>, and \<^verbatim>\<open>decrypt\<close> panics. The same happens on the
  ciphertext \<open>[7]\<close>, which opens to the empty payload.
\<close>

theorem decrypt_all_zero_example:
  "decrypt (tlsReader []) 0 [23, 3, 1, 0, 4]
       \<lparr>contentType = 23, pt_epoch = 0, pt_seq = 0, fragment = [0, 0, 0, 7]\<rparr>
     = Panic IndexOutOfRange \<and>
   Open (tagAEAD 7) [0, 1, 2, 3, 4, 5, 6, 7, 8, 9, 10, 11] [0, 0, 0, 7] [23, 3, 1, 0, 4]
     = Some [0, 0, 0] \<and>
   decrypt (tlsReader []) 0 [23, 3, 1, 0, 1]
       \<lparr>contentType = 23, pt_epoch = 0, pt_seq = 0, fragment = [7]\<rparr>
     = Panic IndexOutOfRange"
  by (simp add: tlsReader_eval codec_eval)

subsection \<open>The write path\<close>

lemma frameLen_bytes:
  assumes "0 \<le> n" and "n < 65536"
  shows "push_bit 8 (uint (word_of_int (drop_bit 8 n) :: byte)) OR uint (word_of_int n :: byte) = n"
proof -
  have "take_bit 16 n = n" using assms by (simp add: take_bit_int_eq_self)
  moreover have "push_bit 8 (take_bit 8 (drop_bit 8 n)) OR take_bit 8 n = take_bit 16 n"
    by (rule bit_eqI) (auto simp: bit_simps)
  ultimately show ?thesis by (simp add: uint_word_of_int_eq)
qed

lemma frameLen_bytes64:
  assumes "0 \<le> n" and "n < 65536"
  shows "push_bit 8 (uint (ucast (drop_bit 8 (word_of_int n :: uint64)) :: byte))
           OR uint (ucast (word_of_int n :: uint64) :: byte) = n"
proof -
  have "take_bit 16 n = n" using assms by (simp add: take_bit_int_eq_self)
  moreover have "push_bit 8 (uint (ucast (drop_bit 8 (word_of_int n :: uint64)) :: byte))
           OR uint (ucast (word_of_int n :: uint64) :: byte) = take_bit 16 n"
    by (rule bit_eqI) (auto simp: bit_simps)
  ultimately show ?thesis by simp
qed


lemma upt8: "[0..<8] = [0, 1, 2, 3, 4, 5, 6, 7]" and upt2: "[0..<2] = [0, 1]"
  by code_simp+

lemma encodeUint_8:
  "encodeUint v 8 out =
     [seq_byte v 7, seq_byte v 6, seq_byte v 5, seq_byte v 4,
      seq_byte v 3, seq_byte v 2, seq_byte v 1, seq_byte v 0] @ drop 8 out"
  by (simp add: encodeUint_def upt8 seq_byte_def)

lemma encodeUint_2:
  "encodeUint v 2 out = [seq_byte v 1, seq_byte v 0] @ drop 2 out"
  by (simp add: encodeUint_def upt2 seq_byte_def)



lemma writeRecord_header_returns:
  "\<exists>header. writeRecord_header env r ct sq len = Return header \<and>
     int (length header) = headerLen (datagram r) \<and> index header 0 = Return ct \<and>
     (0 \<le> len \<longrightarrow> len \<le> maxFragmentLen \<longrightarrow> frameLen (datagram r) header = Return len)"
proof (cases "datagram r")
  case False
  have h: "writeRecord_header env r ct sq len =
      Return [ct, ucast (drop_bit 8 (version r)), ucast (version r AND 0xff),
              word_of_int (drop_bit 8 len), word_of_int len]"
    using False by (simp add: writeRecord_header_def)
  have "0 \<le> len \<Longrightarrow> len \<le> maxFragmentLen \<Longrightarrow>
      push_bit 8 (uint (word_of_int (drop_bit 8 len) :: byte)) OR uint (word_of_int len :: byte) = len"
    by (rule frameLen_bytes) (simp_all add: maxFragmentLen_def)
  then show ?thesis using False
    by (simp add: h frameLen_def headerLen_def recordHeaderLenTLS_def index_def)
next
  case True
  have h: "writeRecord_header env r ct sq len =
      Return [ct, ucast (drop_bit 8 (dtlsConvertVersion env (version r))),
              ucast (dtlsConvertVersion env (version r) AND 0xff),
              seq_byte sq 7, seq_byte sq 6, seq_byte sq 5, seq_byte sq 4,
              seq_byte sq 3, seq_byte sq 2, seq_byte sq 1, seq_byte sq 0,
              seq_byte (word_of_int len) 1, seq_byte (word_of_int len) 0]"
    using True
    by (simp add: writeRecord_header_def make_bytes_def maxAlloc_def copy_def encodeUint_8 encodeUint_2
          Let_def replicate_numeral)
  have "0 \<le> len \<Longrightarrow> len \<le> maxFragmentLen \<Longrightarrow>
      push_bit 8 (uint (ucast (drop_bit 8 (word_of_int len :: uint64)) :: byte))
           OR uint (ucast (word_of_int len :: uint64) :: byte) = len"
    by (rule frameLen_bytes64) (simp_all add: maxFragmentLen_def)
  then show ?thesis using True
    by (simp add: h frameLen_def headerLen_def recordHeaderLenDTLS_def index_def seq_byte_def)
qed

text \<open>
  C7. Whenever \<^verbatim>\<open>writeRecordWithPadding\<close> returns, either it has returned an error with
  the layer unchanged (nothing was handed to the connection), or it has handed exactly
  one record \<open>header @ ciphertext\<close> to \<^verbatim>\<open>conn.Write\<close> and advanced the sequence number (so
  the two cases exclude each other). In the second case the header has the length of the
  framing mode; under an AEAD its content-type byte is \<^verbatim>\<open>RecordTypeApplicationData\<close> and
  its length field, as \<^verbatim>\<open>frameLen\<close> reads it, is
  \<open>len(fragment) + 1 + padLen + Overhead\<close>; without a cipher the content-type byte is the
  one of the record and the length field is the length of the fragment.
\<close>


theorem writeRecord_wire_header:
  assumes w: "writeRecordWithPadding env r pt cref padLen = Return (err, r')"
  shows "(err \<noteq> None \<and> r' = r) \<or>
         (\<exists>header ciphertext c' cn.
            conn_Write env (conn r) (header @ ciphertext) = (err, cn) \<and>
            incrementSequenceNumber (heap r cref) = Return c' \<and>
            r' = r\<lparr>conn := cn, heap := (heap r)(cref := c')\<rparr> \<and>
            int (length header) = headerLen (datagram r) \<and>
            (case cipher (heap r cref) of
               Some a \<Rightarrow>
                 index header 0 = Return (RecordTypeApplicationData env) \<and>
                 frameLen (datagram r) header
                   = Return (int (length (fragment pt)) + 1 + sint padLen + sint (Overhead a))
             | None \<Rightarrow>
                 index header 0 = Return (contentType pt) \<and>
                 frameLen (datagram r) header = Return (int (length (fragment pt)))))"
proof (cases "cipher (heap r cref)")
  case None
  let ?len = "int (length (fragment pt))"
  from writeRecord_header_returns [of env r "contentType pt" "combineSeq (heap r cref) (datagram r)" ?len]
  obtain header where
    hb: "writeRecord_header env r (contentType pt) (combineSeq (heap r cref) (datagram r)) ?len
           = Return header" and
    hl: "int (length header) = headerLen (datagram r)" and
    h0: "index header 0 = Return (contentType pt)" and
    hf: "0 \<le> ?len \<longrightarrow> ?len \<le> maxFragmentLen \<longrightarrow> frameLen (datagram r) header = Return ?len"
    by blast
  show ?thesis
  proof (cases "sint padLen > 0 \<or> ?len > maxFragmentLen")
    case True
    with w show ?thesis
      by (auto simp: writeRecordWithPadding_def Let_def None hb split: if_splits)
  next
    case False
    with w obtain c' cn where
      "incrementSequenceNumber (heap r cref) = Return c'"
      "conn_Write env (conn r) (header @ fragment pt) = (err, cn)"
      "r' = r\<lparr>conn := cn, heap := (heap r)(cref := c')\<rparr>"
      by (auto simp: writeRecordWithPadding_def Let_def None hb
            split: if_splits outcome.splits prod.splits)
    with hl h0 hf False None show ?thesis by auto
  qed
next
  case (Some a)
  let ?S = "int (length (fragment pt)) + 1 + sint padLen + sint (Overhead a)"
  let ?len = "go_int (int (length (fragment pt)) +
                      go_int (go_int (1 + sint padLen) + sint (Overhead a)))"
  let ?sq = "combineSeq (heap r cref) (datagram r)"
  have wrap: "?len = go_int ?S"
    by (simp add: go_int_add_left go_int_add_right add.assoc)
  from writeRecord_header_returns [of env r "RecordTypeApplicationData env" ?sq ?len]
  obtain header where
    hb: "writeRecord_header env r (RecordTypeApplicationData env) ?sq ?len = Return header" and
    hl: "int (length header) = headerLen (datagram r)" and
    h0: "index header 0 = Return (RecordTypeApplicationData env)" and
    hf: "0 \<le> ?len \<longrightarrow> ?len \<le> maxFragmentLen \<longrightarrow> frameLen (datagram r) header = Return ?len"
    by blast
  from w obtain ciphertext where
    en: "encrypt r (heap r cref) ?sq header pt padLen = Return ciphertext"
    by (auto simp: writeRecordWithPadding_def Let_def Some hb split: outcome.splits)
  have cl: "int (length ciphertext) = ?S" and sm: "?S \<le> maxAlloc"
    using encrypt_length [OF en Some] by simp_all
  have "go_int ?S = ?S" using cl sm maxAlloc_less by (intro go_int_id) linarith+
  with wrap have len: "?len = ?S" by simp
  show ?thesis
  proof (cases "?S > maxFragmentLen")
    case True
    with w cl show ?thesis
      by (auto simp: writeRecordWithPadding_def Let_def Some hb en split: if_splits)
  next
    case False
    have l0: "0 \<le> ?S" using cl by linarith
    from w cl False obtain c' cn where
      "incrementSequenceNumber (heap r cref) = Return c'"
      "conn_Write env (conn r) (header @ ciphertext) = (err, cn)"
      "r' = r\<lparr>conn := cn, heap := (heap r)(cref := c')\<rparr>"
      by (auto simp: writeRecordWithPadding_def Let_def Some hb en
            split: if_splits outcome.splits prod.splits)
    with hl h0 hf l0 False Some len show ?thesis
      by auto
  qed
qed

theorem writeRecord_wire_header_witness:
  "writeRecordWithPadding (testEnv False False) tlsWriter
       \<lparr>contentType = 22, pt_epoch = 0, pt_seq = 0, fragment = [104, 105]\<rparr> 1 2
     = Return (None, tlsWriter\<lparr>conn := [paddedHeader @ paddedBody],
                       heap := (heap tlsWriter)(1 := aeadState 1 7 1)\<rparr>) \<and>
   (\<exists>header ciphertext.
      [header @ ciphertext] = [paddedHeader @ paddedBody] \<and>
      int (length header) = 5 \<and>
      index header 0 = Return 23 \<and>
      frameLen False header = Return (2 + 1 + 2 + 1))"
proof -
  let ?pt = "\<lparr>contentType = 22, pt_epoch = 0, pt_seq = 0, fragment = [104, 105]\<rparr>"
  let ?r' = "tlsWriter\<lparr>conn := [paddedHeader @ paddedBody],
                       heap := (heap tlsWriter)(1 := aeadState 1 7 1)\<rparr>"
  have ev: "writeRecordWithPadding (testEnv False False) tlsWriter ?pt 1 2 = Return (None, ?r')"
    by (simp add: writeRecordWithPadding_def writeRecord_header_def tlsWriter_eval codec_eval
          combineSeq_def testEnv_def maxFragmentLen_def incrementSequenceNumber_def
          paddedHeader_def paddedBody_def)
  from writeRecord_wire_header [OF ev]
  obtain header ciphertext c' cn where
    wr: "conn_Write (testEnv False False) (conn tlsWriter) (header @ ciphertext) = (None, cn)" and
    r': "?r' = tlsWriter\<lparr>conn := cn, heap := (heap tlsWriter)(1 := c')\<rparr>" and
    hl: "int (length header) = headerLen (datagram tlsWriter)" and
    cs: "(case cipher (heap tlsWriter 1) of
            Some a \<Rightarrow>
              index header 0 = Return (RecordTypeApplicationData (testEnv False False)) \<and>
              frameLen (datagram tlsWriter) header
                = Return (int (length (fragment ?pt)) + 1 + sint (2 :: int64) + sint (Overhead a))
          | None \<Rightarrow>
              index header 0 = Return (contentType ?pt) \<and>
              frameLen (datagram tlsWriter) header = Return (int (length (fragment ?pt))))"
    by auto
  from r' have "cn = [paddedHeader @ paddedBody]"
    by (simp add: tlsWriter_eval)
  with wr have a: "[header @ ciphertext] = [paddedHeader @ paddedBody]"
    by (simp add: testEnv_def tlsWriter_eval)
  from hl have b: "int (length header) = 5"
    by (simp add: tlsWriter_eval headerLen_def recordHeaderLenTLS_def)
  from cs have c: "index header 0 = Return 23" and d: "frameLen False header = Return (2 + 1 + 2 + 1)"
    by (simp_all add: tlsWriter_eval aeadState_def tagAEAD_def testEnv_def)
  from ev a b c d show ?thesis by blast
qed

text \<open>
  C9. A write with \<open>padLen > 0\<close> through a cipher state without an AEAD returns the error
  and leaves the layer as it was: the connection is not written to and no sequence
  number changes. This holds for \<^verbatim>\<open>writeRecordWithPadding\<close> with any cipher state and for
  \<^verbatim>\<open>WriteRecordWithPadding\<close>, which passes the current one.
\<close>

theorem cleartext_padding_rejected:
  assumes "0 < sint padLen"
  shows "(cipher (heap r cref) = None \<longrightarrow>
            writeRecordWithPadding env r pt cref padLen =
              Return (Some (Errorf ''tls.record: Padding can only be done on encrypted records''),
                      r)) \<and>
         (cipher (heap r (r_cipher r)) = None \<longrightarrow>
            WriteRecordWithPadding env r pt padLen =
              Return (Some (Errorf ''tls.record: Padding can only be done on encrypted records''),
                      r))"
proof -
  have "writeRecordWithPadding env r pt k padLen =
          Return (Some (Errorf ''tls.record: Padding can only be done on encrypted records''), r)"
    if "cipher (heap r k) = None" for k
  proof -
    from writeRecord_header_returns
    obtain header where
      "writeRecord_header env r (contentType pt) (combineSeq (heap r k) (datagram r))
         (int (length (fragment pt))) = Return header"
      by blast
    with that assms show ?thesis
      by (simp add: writeRecordWithPadding_def Let_def)
  qed
  then show ?thesis by (simp add: WriteRecordWithPadding_def)
qed

theorem cleartext_padding_rejected_witness:
  "0 < sint (1 :: int64) \<and> cipher (heap clearWriter (r_cipher clearWriter)) = None \<and>
   WriteRecordWithPadding (testEnv False False) clearWriter
       \<lparr>contentType = 23, pt_epoch = 0, pt_seq = 0, fragment = [104, 105]\<rparr> 1
     = Return (Some (Errorf ''tls.record: Padding can only be done on encrypted records''),
               clearWriter) \<and>
   conn clearWriter = [] \<and> seq (heap clearWriter (r_cipher clearWriter)) = 0"
proof -
  have p: "0 < sint (1 :: int64)" by simp
  have c: "cipher (heap clearWriter (r_cipher clearWriter)) = None"
    by (simp add: clearWriter_def NewRecordLayerTLS_def newCipherStateNull_def)
  have s: "conn clearWriter = [] \<and> seq (heap clearWriter (r_cipher clearWriter)) = 0"
    by (simp add: clearWriter_def NewRecordLayerTLS_def newCipherStateNull_def)
  from cleartext_padding_rejected [OF p, of clearWriter "r_cipher clearWriter"] p c s
  show ?thesis by blast
qed

subsection \<open>The read path\<close>

text \<open>The read loop changes the connection and the frame reader only.\<close>

lemma nextRecord_loop_same:
  assumes "nextRecord_loop env r = Some y"
  shows "heap (snd y) = heap r \<and> cachedRecord (snd y) = cachedRecord r \<and>
         cachedError (snd y) = cachedError r \<and> r_cipher (snd y) = r_cipher r \<and>
         readCiphers (snd y) = readCiphers r \<and> datagram (snd y) = datagram r \<and>
         direction (snd y) = direction r \<and> version (snd y) = version r"
proof (rule nextRecord_loop.raw_induct [OF _ assms], goal_cases)
  case (1 loop env r y)
  from 1(2) show ?case
    by (auto split: if_splits prod.splits option.splits sum.splits dest!: 1(1))
qed

lemma nextRecord_error:
  assumes "nextRecord env allow r = Some (Return (pt, Some e), r')"
  shows "heap r' = heap r \<and> cachedRecord r' = cachedRecord r \<and> cachedError r' = cachedError r"
proof (cases "cachedRecord r")
  case (Some cached)
  with assms show ?thesis by (simp add: nextRecord_def)
next
  case None
  with assms obtain res r1 where l: "nextRecord_loop env r = Some (res, r1)"
    by (auto simp: nextRecord_def split: option.splits)
  from nextRecord_loop_same [OF l]
  have h: "heap r1 = heap r \<and> cachedRecord r1 = cachedRecord r \<and> cachedError r1 = cachedError r"
    by simp
  from assms None l have "r' = r1"
    by (auto simp: nextRecord_def Let_def
          split: option.splits sum.splits prod.splits outcome.splits if_splits)
  with h show ?thesis by simp
qed

lemma nextRecord_success:
  assumes "nextRecord env allow r = Some (Return (pt, None), r')"
  shows "(\<exists>cached. cachedRecord r = Some cached \<and> pt = Some cached \<and> r' = r) \<or>
         (cachedRecord r = None \<and>
          (\<exists>rec cref c'. pt = Some rec \<and> cachedRecord r' = Some rec \<and>
             cachedError r' = cachedError r \<and>
             incrementSequenceNumber (heap r cref) = Return c' \<and>
             heap r' = (heap r)(cref := c')))"
proof (cases "cachedRecord r")
  case (Some cached)
  with assms show ?thesis by (auto simp: nextRecord_def)
next
  case None
  with assms obtain res r1 where l: "nextRecord_loop env r = Some (res, r1)"
    by (auto simp: nextRecord_def split: option.splits)
  from nextRecord_loop_same [OF l]
  have h: "heap r1 = heap r" "cachedError r1 = cachedError r" by simp_all
  from assms None l obtain rec cref c' where
    "pt = Some rec" "incrementSequenceNumber (heap r1 cref) = Return c'"
    "r' = r1\<lparr>cachedRecord := Some rec, heap := (heap r1)(cref := c')\<rparr>"
    by (auto simp: nextRecord_def Let_def
          split: option.splits sum.splits prod.splits outcome.splits if_splits)
  with h None show ?thesis by auto
qed

text \<open>
  A panic of \<^verbatim>\<open>nextRecord\<close> leaves the cipher states as they were. It leaves the cache as it
  was too, unless it is the panic of \<^verbatim>\<open>incrementSequenceNumber\<close>: then the cache, empty
  before, holds the record that was not returned.
\<close>

lemma incrementSequenceNumber_panic:
  "incrementSequenceNumber c = Panic p \<Longrightarrow> p = SequenceWraparound"
  by (auto simp: incrementSequenceNumber_def split: if_splits)

lemma nextRecord_panic:
  assumes "nextRecord env allow r = Some (Panic p, r')"
  shows "heap r' = heap r \<and> cachedError r' = cachedError r \<and>
         (cachedRecord r' = cachedRecord r \<or>
          (p = SequenceWraparound \<and> cachedRecord r = None \<and>
           (\<exists>rec cref. cachedRecord r' = Some rec \<and>
              incrementSequenceNumber (heap r cref) = Panic SequenceWraparound)))"
proof (cases "cachedRecord r")
  case (Some cached)
  with assms show ?thesis by (simp add: nextRecord_def)
next
  case None
  with assms obtain res r1 where l: "nextRecord_loop env r = Some (res, r1)"
    by (auto simp: nextRecord_def split: option.splits)
  from nextRecord_loop_same [OF l]
  have h: "heap r1 = heap r" "cachedError r1 = cachedError r" "cachedRecord r1 = cachedRecord r"
    by simp_all
  from assms None l have
    "r' = r1 \<or> (\<exists>rec cref. incrementSequenceNumber (heap r1 cref) = Panic p \<and>
                   r' = r1\<lparr>cachedRecord := Some rec\<rparr>)"
    by (auto simp: nextRecord_def Let_def
          split: option.splits sum.splits prod.splits outcome.splits if_splits)
  then show ?thesis
  proof
    assume "r' = r1"
    with h show ?thesis by simp
  next
    assume "\<exists>rec cref. incrementSequenceNumber (heap r1 cref) = Panic p \<and>
                   r' = r1\<lparr>cachedRecord := Some rec\<rparr>"
    then obtain rec cref where i: "incrementSequenceNumber (heap r1 cref) = Panic p"
      and r': "r' = r1\<lparr>cachedRecord := Some rec\<rparr>" by blast
    from incrementSequenceNumber_panic [OF i] have p: "p = SequenceWraparound" .
    from i p h(1) have "incrementSequenceNumber (heap r cref) = Panic SequenceWraparound"
      by simp
    with r' h p None show ?thesis by auto
  qed
qed

lemma PeekRecordType_error:
  assumes "PeekRecordType env block r = Some y"
  shows "\<forall>t e r'. y = (Return (t, Some e), r') \<longrightarrow>
           heap r' = heap r \<and> cachedRecord r' = cachedRecord r"
proof (rule PeekRecordType.raw_induct [OF _ assms], goal_cases)
  case (1 peek env block r y)
  show ?case
  proof (intro allI impI)
    fix t e r'
    assume y: "y = (Return (t, Some e), r')"
    from 1(2) y obtain pt e1 r1 where
      n: "nextRecord env False r = Some (Return (pt, Some e1), r1)" and
      c: "(e1 = e \<and> r1 = r') \<or> peek env block r1 = Some (Return (t, Some e), r')"
      by (auto split: option.splits outcome.splits prod.splits if_splits)
    from nextRecord_error [OF n] have h: "heap r1 = heap r \<and> cachedRecord r1 = cachedRecord r"
      by simp
    from c show "heap r' = heap r \<and> cachedRecord r' = cachedRecord r"
    proof
      assume "e1 = e \<and> r1 = r'"
      with h show ?thesis by simp
    next
      assume "peek env block r1 = Some (Return (t, Some e), r')"
      from 1(1) [OF this] h show ?thesis by simp
    qed
  qed
qed

lemma PeekRecordType_success:
  assumes "PeekRecordType env block r = Some y"
  shows "\<forall>t r'. y = (Return (t, None), r') \<longrightarrow> cachedError r = None \<longrightarrow>
           (\<exists>rec. cachedRecord r' = Some rec \<and> contentType rec = t) \<and> cachedError r' = None \<and>
           (cachedRecord r \<noteq> None \<longrightarrow> r' = r) \<and>
           (cachedRecord r = None \<longrightarrow>
              (\<exists>cref c'. incrementSequenceNumber (heap r cref) = Return c' \<and>
                 heap r' = (heap r)(cref := c')))"
proof (rule PeekRecordType.raw_induct [OF _ assms], goal_cases)
  case (1 peek env block r y)
  show ?case
  proof (intro allI impI)
    fix t r'
    assume y: "y = (Return (t, None), r')" and ce: "cachedError r = None"
    from 1(2) y consider
      (ret) rec where "nextRecord env False r = Some (Return (Some rec, None), r')"
         "contentType rec = t"
    | (again) pt e1 r1 where "nextRecord env False r = Some (Return (pt, Some e1), r1)"
         "peek env block r1 = Some (Return (t, None), r')"
      by (auto split: option.splits outcome.splits prod.splits if_splits)
    then show "(\<exists>rec. cachedRecord r' = Some rec \<and> contentType rec = t) \<and> cachedError r' = None \<and>
           (cachedRecord r \<noteq> None \<longrightarrow> r' = r) \<and>
           (cachedRecord r = None \<longrightarrow>
              (\<exists>cref c'. incrementSequenceNumber (heap r cref) = Return c' \<and>
                 heap r' = (heap r)(cref := c')))"
    proof cases
      case ret
      from nextRecord_success [OF ret(1)] ret(2) ce show ?thesis by auto
    next
      case again
      have cr: "cachedRecord r = None"
        using again(1) ce by (auto simp: nextRecord_def split: option.splits)
      have ce1: "cachedError r1 = None" "cachedRecord r1 = None" "heap r1 = heap r"
        using nextRecord_error [OF again(1)] ce cr by simp_all
      from 1(1) [OF again(2)] ce1(1,2) have
        "(\<exists>rec. cachedRecord r' = Some rec \<and> contentType rec = t) \<and> cachedError r' = None \<and>
         (\<exists>cref c'. incrementSequenceNumber (heap r1 cref) = Return c' \<and>
            heap r' = (heap r1)(cref := c'))"
        by blast
      with cr show ?thesis by (simp only: ce1(3)) simp
    qed
  qed
qed

lemma clearReader0303_eval:
  "clearReader0303 fs =
     \<lparr>label = [], direction = DirectionRead, version = 0x0303, conn = [], frame = fs,
      nextData = [], cachedRecord = None, cachedError = None, r_cipher = 0,
      readCiphers = Map.empty, datagram = False,
      heap = (\<lambda>_. newCipherStateNull), heap_next = 1\<rparr>"
  by (simp add: clearReader0303_def SetVersion_def NewRecordLayerTLS_def testEnv_def)

lemma exhaustedReader_eval:
  "exhaustedReader fs =
     \<lparr>label = [], direction = DirectionRead, version = 0x0301, conn = [], frame = fs,
      nextData = [], cachedRecord = None, cachedError = None, r_cipher = 1,
      readCiphers = Map.empty, datagram = False,
      heap = (\<lambda>_. newCipherStateNull)(1 := newCipherStateNull\<lparr>seq := 2 ^ 48 - 1\<rparr>),
      heap_next = 2\<rparr>"
  by (simp add: exhaustedReader_def ResetClear_def NewRecordLayerTLS_def testEnv_def)

lemma dtlsReader_eval:
  "dtlsReader fs =
     \<lparr>label = [], direction = DirectionRead, version = 0, conn = [], frame = fs,
      nextData = [], cachedRecord = None, cachedError = None, r_cipher = 2,
      readCiphers = [0 \<mapsto> 0, 1 \<mapsto> 1, 2 \<mapsto> 2], datagram = True,
      heap = (\<lambda>_. newCipherStateNull)(1 := aeadState 1 7 0, 2 := aeadState 2 9 0),
      heap_next = 3\<rparr>"
  by (simp add: dtlsReader_def Rekey_def NewRecordLayerDTLS_def testEnv_def newCipherStateAead_def
        keySet_def labelForKey_def labelForIV_def tagFactory_def aeadState_def iv12_def Let_def
        DirectionRead_def numeral_2_eq_2)

lemma dtlsReaderEpoch1_eval:
  "dtlsReaderEpoch1 fs =
     \<lparr>label = [], direction = DirectionRead, version = 0, conn = [], frame = fs,
      nextData = [], cachedRecord = None, cachedError = None, r_cipher = 1,
      readCiphers = [0 \<mapsto> 0, 1 \<mapsto> 1], datagram = True,
      heap = (\<lambda>_. newCipherStateNull)(1 := aeadState 1 7 0),
      heap_next = 2\<rparr>"
  by (simp add: dtlsReaderEpoch1_def Rekey_def NewRecordLayerDTLS_def testEnv_def
        newCipherStateAead_def keySet_def labelForKey_def labelForIV_def tagFactory_def
        aeadState_def iv12_def Let_def DirectionRead_def)

lemmas read_eval =
  nextRecord_def nextRecord_validate_def nextRecord_select_def testEnv_def
  maxFragmentLen_def incrementSequenceNumber_def newCipherStateNull_def EpochClear_def
  ReadRecord_def ReadRecordAnyEpoch_def decodeUint_def epoch1Header_def epoch1Body_def
  paddedHeader_def paddedBody_def clearHeader_def clearBody_def

lemma exhaustedReader_next:
  "nextRecord (testEnv False False) False (exhaustedReader [(clearHeader, clearBody)])
     = Some (Panic SequenceWraparound,
             (exhaustedReader [])\<lparr>cachedRecord :=
                Some \<lparr>contentType = 23, pt_epoch = 0, pt_seq = 0, fragment = [1, 2]\<rparr>\<rparr>)"
  apply (simp add: exhaustedReader_eval nextRecord_def)
  apply (subst nextRecord_loop.simps)
  apply (simp add: read_eval codec_eval)
  done

text \<open>
  C10, as the code has it. When \<^verbatim>\<open>nextRecord\<close>, \<^verbatim>\<open>ReadRecord\<close>, \<^verbatim>\<open>ReadRecordAnyEpoch\<close> or
  \<^verbatim>\<open>PeekRecordType\<close> returns an error, the store of the cipher states is as before, so no
  sequence number has advanced, and no record has been put in the cache: \<^verbatim>\<open>nextRecord\<close> and
  \<^verbatim>\<open>PeekRecordType\<close> leave the cache as it was and the two read functions leave it empty.
  When \<^verbatim>\<open>nextRecord\<close> ends, by a return or by a panic, with a cipher state changed, it has
  returned a record and no error, and the cache holds that record. When it ends with the
  cache changed, the cache holds a record, and either that record has been returned with
  no error, or the call has ended in the panic of \<^verbatim>\<open>incrementSequenceNumber\<close> with every
  cipher state as before.
\<close>

theorem read_error_no_advance:
  "(nextRecord env allow r = Some (Return (pt, Some e), r') \<longrightarrow>
      heap r' = heap r \<and> cachedRecord r' = cachedRecord r) \<and>
   (ReadRecord env r = Some (Return (pt, Some e), r') \<longrightarrow>
      heap r' = heap r \<and> cachedRecord r' = None) \<and>
   (ReadRecordAnyEpoch env r = Some (Return (pt, Some e), r') \<longrightarrow>
      heap r' = heap r \<and> cachedRecord r' = None) \<and>
   (PeekRecordType env block r = Some (Return (t, Some e), r') \<longrightarrow>
      heap r' = heap r \<and> cachedRecord r' = cachedRecord r) \<and>
   (nextRecord env allow r = Some (out, r') \<and> heap r' \<noteq> heap r \<longrightarrow>
      (\<exists>rec. out = Return (Some rec, None) \<and> cachedRecord r' = Some rec)) \<and>
   (nextRecord env allow r = Some (out, r') \<and> cachedRecord r' \<noteq> cachedRecord r \<longrightarrow>
      (\<exists>rec. cachedRecord r' = Some rec \<and>
         (out = Return (Some rec, None) \<or>
          (out = Panic SequenceWraparound \<and> heap r' = heap r \<and>
           (\<exists>cref. incrementSequenceNumber (heap r cref) = Panic SequenceWraparound)))))"
proof (intro conjI impI)
  assume "nextRecord env allow r = Some (Return (pt, Some e), r')"
  from nextRecord_error [OF this]
  show "heap r' = heap r" and "cachedRecord r' = cachedRecord r" by simp_all
next
  assume a: "ReadRecord env r = Some (Return (pt, Some e), r')"
  then obtain r1 where n: "nextRecord env False r = Some (Return (pt, Some e), r1)"
    and r': "r' = r1\<lparr>cachedRecord := None, cachedError := None\<rparr>"
    by (auto simp: ReadRecord_def split: option.splits outcome.splits)
  from nextRecord_error [OF n] r'
  show "heap r' = heap r" and "cachedRecord r' = None" by simp_all
next
  assume a: "ReadRecordAnyEpoch env r = Some (Return (pt, Some e), r')"
  then obtain r1 where n: "nextRecord env True r = Some (Return (pt, Some e), r1)"
    and r': "r' = r1\<lparr>cachedRecord := None, cachedError := None\<rparr>"
    by (auto simp: ReadRecordAnyEpoch_def split: option.splits outcome.splits)
  from nextRecord_error [OF n] r'
  show "heap r' = heap r" and "cachedRecord r' = None" by simp_all
next
  assume "PeekRecordType env block r = Some (Return (t, Some e), r')"
  from PeekRecordType_error [OF this]
  show "heap r' = heap r" and "cachedRecord r' = cachedRecord r" by simp_all
next
  assume a: "nextRecord env allow r = Some (out, r') \<and> heap r' \<noteq> heap r"
  show "\<exists>rec. out = Return (Some rec, None) \<and> cachedRecord r' = Some rec"
  proof (cases out)
    case (Panic p)
    with a nextRecord_panic [of env allow r p r'] show ?thesis by simp
  next
    case (Return res)
    obtain pt1 err where res: "res = (pt1, err)" by (cases res)
    show ?thesis
    proof (cases err)
      case (Some e1)
      with a Return res nextRecord_error [of env allow r pt1 e1 r'] show ?thesis by simp
    next
      case None
      with a Return res have "nextRecord env allow r = Some (Return (pt1, None), r')" by simp
      from nextRecord_success [OF this] a Return res None show ?thesis by auto
    qed
  qed
next
  assume a: "nextRecord env allow r = Some (out, r') \<and> cachedRecord r' \<noteq> cachedRecord r"
  show "\<exists>rec. cachedRecord r' = Some rec \<and>
         (out = Return (Some rec, None) \<or>
          (out = Panic SequenceWraparound \<and> heap r' = heap r \<and>
           (\<exists>cref. incrementSequenceNumber (heap r cref) = Panic SequenceWraparound)))"
  proof (cases out)
    case (Panic p)
    with a nextRecord_panic [of env allow r p r'] show ?thesis by auto
  next
    case (Return res)
    obtain pt1 err where res: "res = (pt1, err)" by (cases res)
    show ?thesis
    proof (cases err)
      case (Some e1)
      with a Return res nextRecord_error [of env allow r pt1 e1 r'] show ?thesis by simp
    next
      case None
      with a Return res have "nextRecord env allow r = Some (Return (pt1, None), r')" by simp
      from nextRecord_success [OF this] a Return res None show ?thesis by auto
    qed
  qed
qed

theorem read_error_no_advance_witness:
  "nextRecord (testEnv False False) False (tlsReader [])
     = Some (Return (None, Some AlertWouldBlock), tlsReader []) \<and>
   ReadRecord (testEnv False False) (tlsReader [])
     = Some (Return (None, Some AlertWouldBlock), tlsReader []) \<and>
   ReadRecordAnyEpoch (testEnv False False) (tlsReader [])
     = Some (Return (None, Some AlertWouldBlock), tlsReader []) \<and>
   PeekRecordType (testEnv False False) False (tlsReader [])
     = Some (Return (0, Some AlertWouldBlock), tlsReader []) \<and>
   heap (tlsReader []) = heap (tlsReader []) \<and> cachedRecord (tlsReader []) = None \<and>
   nextRecord (testEnv False False) False (tlsReader [(paddedHeader, paddedBody)])
     = Some (Return (Some \<lparr>contentType = 22, pt_epoch = 1, pt_seq = 0, fragment = [104, 105]\<rparr>,
                     None),
          (tlsReader [])\<lparr>cachedRecord :=
               Some \<lparr>contentType = 22, pt_epoch = 1, pt_seq = 0, fragment = [104, 105]\<rparr>,
             heap := (heap (tlsReader []))(1 := aeadState 1 7 1)\<rparr>) \<and>
   heap ((tlsReader [])\<lparr>cachedRecord :=
               Some \<lparr>contentType = 22, pt_epoch = 1, pt_seq = 0, fragment = [104, 105]\<rparr>,
             heap := (heap (tlsReader []))(1 := aeadState 1 7 1)\<rparr>)
     \<noteq> heap (tlsReader [(paddedHeader, paddedBody)]) \<and>
   cachedRecord ((tlsReader [])\<lparr>cachedRecord :=
               Some \<lparr>contentType = 22, pt_epoch = 1, pt_seq = 0, fragment = [104, 105]\<rparr>,
             heap := (heap (tlsReader []))(1 := aeadState 1 7 1)\<rparr>)
     \<noteq> cachedRecord (tlsReader [(paddedHeader, paddedBody)]) \<and>
   nextRecord (testEnv False False) False (exhaustedReader [(clearHeader, clearBody)])
     = Some (Panic SequenceWraparound,
             (exhaustedReader [])\<lparr>cachedRecord :=
                Some \<lparr>contentType = 23, pt_epoch = 0, pt_seq = 0, fragment = [1, 2]\<rparr>\<rparr>) \<and>
   cachedRecord ((exhaustedReader [])\<lparr>cachedRecord :=
                Some \<lparr>contentType = 23, pt_epoch = 0, pt_seq = 0, fragment = [1, 2]\<rparr>\<rparr>)
     \<noteq> cachedRecord (exhaustedReader [(clearHeader, clearBody)]) \<and>
   heap ((exhaustedReader [])\<lparr>cachedRecord :=
                Some \<lparr>contentType = 23, pt_epoch = 0, pt_seq = 0, fragment = [1, 2]\<rparr>\<rparr>)
     = heap (exhaustedReader [(clearHeader, clearBody)])"
proof -
  let ?env = "testEnv False False"
  let ?r0 = "tlsReader []"
  let ?r1 = "tlsReader [(paddedHeader, paddedBody)]"
  let ?rec = "\<lparr>contentType = 22, pt_epoch = 1, pt_seq = 0, fragment = [104, 105]\<rparr>"
  let ?r2 = "?r0\<lparr>cachedRecord := Some ?rec, heap := (heap ?r0)(1 := aeadState 1 7 1)\<rparr>"
  let ?x1 = "exhaustedReader [(clearHeader, clearBody)]"
  let ?xrec = "\<lparr>contentType = 23, pt_epoch = 0, pt_seq = 0, fragment = [1, 2]\<rparr>"
  let ?x2 = "(exhaustedReader [])\<lparr>cachedRecord := Some ?xrec\<rparr>"
  have lp: "nextRecord_loop ?env ?r0 = Some (Inl AlertWouldBlock, ?r0)"
    by (subst nextRecord_loop.simps) (simp add: tlsReader_eval testEnv_def)
  have cr0: "cachedRecord ?r0 = None" by (simp add: tlsReader_eval)
  have n0: "nextRecord ?env False ?r0 = Some (Return (None, Some AlertWouldBlock), ?r0)"
    by (simp add: nextRecord_def cr0 lp)
  have n0': "nextRecord ?env True ?r0 = Some (Return (None, Some AlertWouldBlock), ?r0)"
    by (simp add: nextRecord_def cr0 lp)
  have rr: "ReadRecord ?env ?r0 = Some (Return (None, Some AlertWouldBlock), ?r0)"
    by (simp add: ReadRecord_def n0) (simp add: tlsReader_eval)
  have ra: "ReadRecordAnyEpoch ?env ?r0 = Some (Return (None, Some AlertWouldBlock), ?r0)"
    by (simp add: ReadRecordAnyEpoch_def n0') (simp add: tlsReader_eval)
  have pk: "PeekRecordType ?env False ?r0 = Some (Return (0, Some AlertWouldBlock), ?r0)"
    by (subst PeekRecordType.simps) (simp add: n0)
  have n1: "nextRecord ?env False ?r1 = Some (Return (Some ?rec, None), ?r2)"
    apply (simp add: tlsReader_eval nextRecord_def)
    apply (subst nextRecord_loop.simps)
    apply (simp add: read_eval codec_eval)
    done
  have ne: "cachedRecord ?r2 \<noteq> cachedRecord ?r1"
    by (simp add: tlsReader_eval)
  have nh: "heap ?r2 \<noteq> heap ?r1"
  proof
    assume "heap ?r2 = heap ?r1"
    then have "seq (heap ?r2 1) = seq (heap ?r1 1)" by simp
    then show False by (simp add: tlsReader_eval aeadState_def)
  qed
  note nx = exhaustedReader_next
  have xe: "cachedRecord ?x2 \<noteq> cachedRecord ?x1" by (simp add: exhaustedReader_eval)
  have xh: "heap ?x2 = heap ?x1" by (simp add: exhaustedReader_eval)
  note t0 = read_error_no_advance [where env = ?env and allow = False and r = ?r0
      and pt = None and e = AlertWouldBlock and r' = ?r0 and block = False and t = 0
      and out = "Return (None, Some AlertWouldBlock)"]
  note t1 = read_error_no_advance [where env = ?env and allow = False and r = ?r1
      and pt = "Some ?rec" and e = AlertWouldBlock and r' = ?r2 and block = False and t = 0
      and out = "Return (Some ?rec, None)"]
  note t2 = read_error_no_advance [where env = ?env and allow = False and r = ?x1
      and pt = None and e = AlertWouldBlock and r' = ?x2 and block = False and t = 0
      and out = "Panic SequenceWraparound"]
  from t0 n0 rr ra pk have a: "heap ?r0 = heap ?r0 \<and> cachedRecord ?r0 = None" by blast
  from t1 n1 nh have b: "\<exists>rec. Return (Some ?rec, None) = Return (Some rec, None) \<and>
      cachedRecord ?r2 = Some rec" by blast
  from t2 nx xe have c: "\<exists>rec. cachedRecord ?x2 = Some rec \<and>
      ((Panic SequenceWraparound :: (TLSPlaintext option \<times> error option) outcome)
          = Return (Some rec, None) \<or>
       (heap ?x2 = heap ?x1 \<and>
        (\<exists>cref. incrementSequenceNumber (heap ?x1 cref) = Panic SequenceWraparound)))"
    by blast
  then have xh': "heap ?x2 = heap ?x1" by auto
  from n0 rr ra pk a n1 nh ne nx xe xh' show ?thesis by blast
qed

text \<open>
  C10 as stated fails in its second half, that the cache is filled only when a record is
  returned. \<^verbatim>\<open>nextRecord\<close> assigns \<^verbatim>\<open>r.cachedRecord = pt\<close> and calls
  \<^verbatim>\<open>cipher.incrementSequenceNumber()\<close> after it. On a layer whose sequence number is
  \<open>2^48 - 1\<close> and whose cache is empty, the call reads the record, puts it in the cache and
  panics: nothing is returned and no sequence number has advanced. A \<^verbatim>\<open>ReadRecord\<close> on the
  layer as the panic leaves it returns that record from the cache.
\<close>

theorem read_panic_fills_cache_counterexample:
  "cachedRecord (exhaustedReader [(clearHeader, clearBody)]) = None \<and>
   seq (heap (exhaustedReader [(clearHeader, clearBody)])
          (r_cipher (exhaustedReader [(clearHeader, clearBody)]))) = 2 ^ 48 - 1 \<and>
   nextRecord (testEnv False False) False (exhaustedReader [(clearHeader, clearBody)])
     = Some (Panic SequenceWraparound,
             (exhaustedReader [])\<lparr>cachedRecord :=
                Some \<lparr>contentType = 23, pt_epoch = 0, pt_seq = 0, fragment = [1, 2]\<rparr>\<rparr>) \<and>
   ReadRecord (testEnv False False) (exhaustedReader [(clearHeader, clearBody)])
     = Some (Panic SequenceWraparound,
             (exhaustedReader [])\<lparr>cachedRecord :=
                Some \<lparr>contentType = 23, pt_epoch = 0, pt_seq = 0, fragment = [1, 2]\<rparr>\<rparr>) \<and>
   cachedRecord ((exhaustedReader [])\<lparr>cachedRecord :=
                Some \<lparr>contentType = 23, pt_epoch = 0, pt_seq = 0, fragment = [1, 2]\<rparr>\<rparr>)
     = Some \<lparr>contentType = 23, pt_epoch = 0, pt_seq = 0, fragment = [1, 2]\<rparr> \<and>
   ReadRecord (testEnv False False)
       ((exhaustedReader [])\<lparr>cachedRecord :=
                Some \<lparr>contentType = 23, pt_epoch = 0, pt_seq = 0, fragment = [1, 2]\<rparr>\<rparr>)
     = Some (Return (Some \<lparr>contentType = 23, pt_epoch = 0, pt_seq = 0, fragment = [1, 2]\<rparr>,
                     None),
             exhaustedReader [])"
proof -
  let ?env = "testEnv False False"
  let ?x1 = "exhaustedReader [(clearHeader, clearBody)]"
  let ?xrec = "\<lparr>contentType = 23, pt_epoch = 0, pt_seq = 0, fragment = [1, 2]\<rparr>"
  let ?x2 = "(exhaustedReader [])\<lparr>cachedRecord := Some ?xrec\<rparr>"
  have a: "cachedRecord ?x1 = None" by (simp add: exhaustedReader_eval)
  have b: "seq (heap ?x1 (r_cipher ?x1)) = 2 ^ 48 - 1" by (simp add: exhaustedReader_eval)
  have c: "nextRecord ?env False ?x1 = Some (Panic SequenceWraparound, ?x2)"
    by (rule exhaustedReader_next)
  have d: "ReadRecord ?env ?x1 = Some (Panic SequenceWraparound, ?x2)"
    by (simp add: ReadRecord_def c)
  have e: "cachedRecord ?x2 = Some ?xrec" by simp
  have "nextRecord ?env False ?x2 = Some (Return (Some ?xrec, None), ?x2)"
    by (simp add: nextRecord_def exhaustedReader_eval)
  then have f: "ReadRecord ?env ?x2 = Some (Return (Some ?xrec, None), exhaustedReader [])"
    by (simp add: ReadRecord_def) (simp add: exhaustedReader_eval)
  from a b c d e f show ?thesis by blast
qed

text \<open>
  C8, as the code has it. In a layer with no cached error (the code never stores one),
  when \<^verbatim>\<open>PeekRecordType\<close> returns a content type, a second call, blocking or not, returns
  the same content type and leaves the layer exactly as the first call left it, so the
  second call advances no sequence number. A first call that finds a record in the cache
  changes nothing either; a first call on an empty cache has read a record and advanced
  the sequence number of one cipher state by one.
\<close>

theorem peek_twice_same:
  assumes "cachedError r = None"
    and "PeekRecordType env block r = Some (Return (t, None), r1)"
  shows "PeekRecordType env block2 r1 = Some (Return (t, None), r1) \<and>
         (cachedRecord r \<noteq> None \<longrightarrow> r1 = r) \<and>
         (cachedRecord r = None \<longrightarrow>
            (\<exists>cref. seq (heap r cref) < 2 ^ 48 - 1 \<and>
               heap r1 = (heap r)(cref := (heap r cref)\<lparr>seq := seq (heap r cref) + 1\<rparr>)))"
proof -
  from PeekRecordType_success [OF assms(2)] assms(1)
  obtain rec where c: "cachedRecord r1 = Some rec" "contentType rec = t" "cachedError r1 = None"
    and u: "cachedRecord r \<noteq> None \<longrightarrow> r1 = r"
    and v: "cachedRecord r = None \<longrightarrow>
              (\<exists>cref c'. incrementSequenceNumber (heap r cref) = Return c' \<and>
                 heap r1 = (heap r)(cref := c'))"
    by blast
  from c have "nextRecord env False r1 = Some (Return (Some rec, None), r1)"
    by (simp add: nextRecord_def)
  then have p: "PeekRecordType env block2 r1 = Some (Return (t, None), r1)"
    by (subst PeekRecordType.simps) (simp add: c)
  have w: "\<exists>cref. seq (heap r cref) < 2 ^ 48 - 1 \<and>
               heap r1 = (heap r)(cref := (heap r cref)\<lparr>seq := seq (heap r cref) + 1\<rparr>)"
    if "cachedRecord r = None"
  proof -
    from v that obtain cref c' where
      i: "incrementSequenceNumber (heap r cref) = Return c'" and
      h: "heap r1 = (heap r)(cref := c')" by blast
    from i have "seq (heap r cref) < 2 ^ 48 - 1 \<and> c' = (heap r cref)\<lparr>seq := seq (heap r cref) + 1\<rparr>"
      by (auto simp: incrementSequenceNumber_def not_le split: if_splits)
    with h show ?thesis by blast
  qed
  from p u w show ?thesis by blast
qed

theorem peek_twice_same_witness:
  "cachedError (tlsReader [(paddedHeader, paddedBody)]) = None \<and>
   PeekRecordType (testEnv False False) False
       (tlsReader [(paddedHeader, paddedBody)])
     = Some (Return (22, None),
          (tlsReader [])\<lparr>cachedRecord :=
               Some \<lparr>contentType = 22, pt_epoch = 1, pt_seq = 0, fragment = [104, 105]\<rparr>,
             heap := (heap (tlsReader []))(1 := aeadState 1 7 1)\<rparr>) \<and>
   PeekRecordType (testEnv False False) True
       ((tlsReader [])\<lparr>cachedRecord :=
               Some \<lparr>contentType = 22, pt_epoch = 1, pt_seq = 0, fragment = [104, 105]\<rparr>,
             heap := (heap (tlsReader []))(1 := aeadState 1 7 1)\<rparr>)
     = Some (Return (22, None),
          (tlsReader [])\<lparr>cachedRecord :=
               Some \<lparr>contentType = 22, pt_epoch = 1, pt_seq = 0, fragment = [104, 105]\<rparr>,
             heap := (heap (tlsReader []))(1 := aeadState 1 7 1)\<rparr>)"
proof -
  let ?env = "testEnv False False"
  let ?r1 = "tlsReader [(paddedHeader, paddedBody)]"
  let ?rec = "\<lparr>contentType = 22, pt_epoch = 1, pt_seq = 0, fragment = [104, 105]\<rparr>"
  let ?r2 = "(tlsReader [])\<lparr>cachedRecord := Some ?rec,
                heap := (heap (tlsReader []))(1 := aeadState 1 7 1)\<rparr>"
  have ce: "cachedError ?r1 = None" by (simp add: tlsReader_eval)
  have n1: "nextRecord ?env False ?r1 = Some (Return (Some ?rec, None), ?r2)"
    apply (simp add: tlsReader_eval nextRecord_def)
    apply (subst nextRecord_loop.simps)
    apply (simp add: read_eval codec_eval)
    done
  have pk: "PeekRecordType ?env False ?r1 = Some (Return (22, None), ?r2)"
    by (subst PeekRecordType.simps) (simp add: n1)
  from peek_twice_same [OF ce pk, of True] have
    "PeekRecordType ?env True ?r2 = Some (Return (22, None), ?r2)" by blast
  with ce pk show ?thesis by blast
qed

text \<open>
  C8 as stated fails: the first of the two calls, on a layer with an empty cache, reads
  and decrypts the record and advances the sequence number of the cipher state from 0
  to 1.
\<close>

theorem peek_advances_sequence_counterexample:
  "PeekRecordType (testEnv False False) False
       (tlsReader [(paddedHeader, paddedBody)])
     = Some (Return (22, None),
          (tlsReader [])\<lparr>cachedRecord :=
               Some \<lparr>contentType = 22, pt_epoch = 1, pt_seq = 0, fragment = [104, 105]\<rparr>,
             heap := (heap (tlsReader []))(1 := aeadState 1 7 1)\<rparr>) \<and>
   seq (heap (tlsReader [(paddedHeader, paddedBody)]) 1) = 0 \<and>
   seq (heap ((tlsReader [])\<lparr>cachedRecord :=
               Some \<lparr>contentType = 22, pt_epoch = 1, pt_seq = 0, fragment = [104, 105]\<rparr>,
             heap := (heap (tlsReader []))(1 := aeadState 1 7 1)\<rparr>) 1) = 1"
proof -
  let ?env = "testEnv False False"
  let ?r1 = "tlsReader [(paddedHeader, paddedBody)]"
  let ?rec = "\<lparr>contentType = 22, pt_epoch = 1, pt_seq = 0, fragment = [104, 105]\<rparr>"
  let ?r2 = "(tlsReader [])\<lparr>cachedRecord := Some ?rec,
                heap := (heap (tlsReader []))(1 := aeadState 1 7 1)\<rparr>"
  have n1: "nextRecord ?env False ?r1 = Some (Return (Some ?rec, None), ?r2)"
    apply (simp add: tlsReader_eval nextRecord_def)
    apply (subst nextRecord_loop.simps)
    apply (simp add: read_eval codec_eval)
    done
  have pk: "PeekRecordType ?env False ?r1 = Some (Return (22, None), ?r2)"
    by (subst PeekRecordType.simps) (simp add: n1)
  have s: "seq (heap ?r1 1) = 0" "seq (heap ?r2 1) = 1"
    by (simp_all add: tlsReader_eval aeadState_def)
  from pk s show ?thesis by blast
qed

text \<open>
  C5. The claim compares the version of the header with the version the layer is
  configured with. The code compares it with the constant \<open>0x0301\<close>: with version
  checking enabled and the version of the layer set to \<open>0x0303\<close> by \<^verbatim>\<open>SetVersion\<close>, a
  header that carries \<open>0x0303\<close> is rejected for its version, and a header that carries
  \<open>0x0301\<close> is accepted.
\<close>

theorem version_check_example:
  "\<not> allowWrongVersionNumber (testEnv False False) \<and>
   version (clearReader0303 [([23, 3, 3, 0, 2], [1, 2])]) = 0x0303 \<and>
   nextRecord (testEnv False False) False (clearReader0303 [([23, 3, 3, 0, 2], [1, 2])])
     = Some (Return (None, Some (Errorf ''tls.record: Invalid version'')),
                     clearReader0303 []) \<and>
   nextRecord (testEnv False False) False (clearReader0303 [([23, 3, 1, 0, 2], [1, 2])])
     = Some (Return
         (Some \<lparr>contentType = 23, pt_epoch = 0, pt_seq = 0, fragment = [1, 2]\<rparr>, None),
          (clearReader0303 [])
            \<lparr>cachedRecord :=
               Some \<lparr>contentType = 23, pt_epoch = 0, pt_seq = 0, fragment = [1, 2]\<rparr>,
             heap := (\<lambda>_. newCipherStateNull)(0 := newCipherStateNull\<lparr>seq := 1\<rparr>)\<rparr>)"
proof -
  have a: "\<not> allowWrongVersionNumber (testEnv False False)" by (simp add: testEnv_def)
  have b: "version (clearReader0303 [([23, 3, 3, 0, 2], [1, 2])]) = 0x0303"
    by (simp add: clearReader0303_eval)
  have c: "nextRecord (testEnv False False) False (clearReader0303 [([23, 3, 3, 0, 2], [1, 2])])
     = Some (Return (None, Some (Errorf ''tls.record: Invalid version'')),
                     clearReader0303 [])"
    apply (simp add: clearReader0303_eval nextRecord_def)
    apply (subst nextRecord_loop.simps)
    apply (simp add: read_eval codec_eval)
    done
  have d: "nextRecord (testEnv False False) False (clearReader0303 [([23, 3, 1, 0, 2], [1, 2])])
     = Some (Return
         (Some \<lparr>contentType = 23, pt_epoch = 0, pt_seq = 0, fragment = [1, 2]\<rparr>, None),
          (clearReader0303 [])
            \<lparr>cachedRecord :=
               Some \<lparr>contentType = 23, pt_epoch = 0, pt_seq = 0, fragment = [1, 2]\<rparr>,
             heap := (\<lambda>_. newCipherStateNull)(0 := newCipherStateNull\<lparr>seq := 1\<rparr>)\<rparr>)"
    apply (simp add: clearReader0303_eval nextRecord_def)
    apply (subst nextRecord_loop.simps)
    apply (simp add: read_eval codec_eval)
    done
  from a b c d show ?thesis by blast
qed

text \<open>
  C2. The would-block half of the claim holds, the decryption half does not. In
  datagram mode \<^verbatim>\<open>nextRecord\<close> picks the cipher state of the epoch of the record, but
  \<^verbatim>\<open>decrypt\<close> opens the record with \<^verbatim>\<open>r.cipher\<close>, the cipher state of the current epoch.
  The record below is what \<^verbatim>\<open>encrypt\<close> produces in epoch 1, and a reader whose current
  epoch is 1 reads it. After the reader has moved to epoch 2, with epoch 1 still in
  \<^verbatim>\<open>readCiphers\<close>, \<^verbatim>\<open>ReadRecordAnyEpoch\<close> returns a decrypt error for it, and \<^verbatim>\<open>ReadRecord\<close>
  returns would-block.
\<close>

theorem old_epoch_read_example:
  "encrypt tlsWriter (aeadState 1 7 0) (combineSeq (aeadState 1 7 0) True) epoch1Header
       \<lparr>contentType = 22, pt_epoch = 1, pt_seq = 0, fragment = [104, 105]\<rparr> 0
     = Return epoch1Body \<and>
   ReadRecord (testEnv False True) (dtlsReaderEpoch1 [(epoch1Header, epoch1Body)])
     = Some (Return
         (Some \<lparr>contentType = 22, pt_epoch = 1, pt_seq = push_bit 48 1,
                  fragment = [104, 105]\<rparr>, None),
          (dtlsReaderEpoch1 [])
            \<lparr>heap := (heap (dtlsReaderEpoch1 []))(1 := aeadState 1 7 1)\<rparr>) \<and>
   readCiphers (dtlsReader [(epoch1Header, epoch1Body)]) 1 = Some 1 \<and>
   epoch (heap (dtlsReader [(epoch1Header, epoch1Body)])
            (r_cipher (dtlsReader [(epoch1Header, epoch1Body)]))) = 2 \<and>
   ReadRecordAnyEpoch (testEnv False True) (dtlsReader [(epoch1Header, epoch1Body)])
     = Some (Return (None, Some (DecryptError ''tls.record.decrypt: AEAD decrypt failed'')),
                     dtlsReader []) \<and>
   ReadRecord (testEnv False True) (dtlsReader [(epoch1Header, epoch1Body)])
     = Some (Return (None, Some AlertWouldBlock), dtlsReader [])"
proof -
  let ?env = "testEnv False True"
  have a: "encrypt tlsWriter (aeadState 1 7 0) (combineSeq (aeadState 1 7 0) True) epoch1Header
       \<lparr>contentType = 22, pt_epoch = 1, pt_seq = 0, fragment = [104, 105]\<rparr> 0
     = Return epoch1Body"
    by (simp add: tlsWriter_eval codec_eval combineSeq_def epoch1Header_def epoch1Body_def)
  have b: "ReadRecord ?env (dtlsReaderEpoch1 [(epoch1Header, epoch1Body)])
     = Some (Return
         (Some \<lparr>contentType = 22, pt_epoch = 1, pt_seq = push_bit 48 1,
                  fragment = [104, 105]\<rparr>, None),
          (dtlsReaderEpoch1 [])
            \<lparr>heap := (heap (dtlsReaderEpoch1 []))(1 := aeadState 1 7 1)\<rparr>)"
    apply (simp add: dtlsReaderEpoch1_eval ReadRecord_def nextRecord_def)
    apply (subst nextRecord_loop.simps)
    apply (simp add: read_eval codec_eval)
    done
  have c: "readCiphers (dtlsReader [(epoch1Header, epoch1Body)]) 1 = Some 1"
    by (simp add: dtlsReader_eval)
  have d: "epoch (heap (dtlsReader [(epoch1Header, epoch1Body)])
            (r_cipher (dtlsReader [(epoch1Header, epoch1Body)]))) = 2"
    by (simp add: dtlsReader_eval aeadState_def)
  have e: "ReadRecordAnyEpoch ?env (dtlsReader [(epoch1Header, epoch1Body)])
     = Some (Return (None, Some (DecryptError ''tls.record.decrypt: AEAD decrypt failed'')),
                     dtlsReader [])"
    apply (simp add: dtlsReader_eval ReadRecordAnyEpoch_def nextRecord_def)
    apply (subst nextRecord_loop.simps)
    apply (simp add: read_eval codec_eval)
    done
  have f: "ReadRecord ?env (dtlsReader [(epoch1Header, epoch1Body)])
     = Some (Return (None, Some AlertWouldBlock), dtlsReader [])"
    apply (simp add: dtlsReader_eval ReadRecord_def nextRecord_def)
    apply (subst nextRecord_loop.simps)
    apply (simp add: read_eval codec_eval)
    done
  from a b c d e f show ?thesis by blast
qed

end
